theory Spec2Isabelle
  imports Complex_Main "HOL-Library.Multiset"
begin

section \<open>Python strings: code points and character classes\<close>

text \<open>
  A Python \<open>str\<close> is a sequence of Unicode code points; the source depends on that
  (\<open>'\<euro>'\<close> is the single code point U+20AC and \<open>'\xa0'\<close> is U+00A0), so a string
  is a list of code points and a code point is an integer, as \<open>ord\<close> gives it.
\<close>

type_synonym cp = int
type_synonym pystr = "cp list"

definition ascii :: "string \<Rightarrow> pystr" where
  "ascii s = map of_char s"

definition euro :: cp where "euro = 8364"
definition nbsp :: cp where "nbsp = 160"

text \<open>
  \<open>str.isspace\<close>, which is also the class \<open>\s\<close> of \<open>re\<close> on \<open>str\<close> patterns and the
  set removed by \<open>str.strip()\<close>: U+0009..U+000D, U+001C..U+0020, U+0085, U+00A0, U+1680,
  U+2000..U+200A, U+2028, U+2029, U+202F, U+205F, U+3000.
\<close>

definition isspace :: "cp \<Rightarrow> bool" where
  "isspace c \<longleftrightarrow>
     (9 \<le> c \<and> c \<le> 13) \<or> (28 \<le> c \<and> c \<le> 32) \<or> c = 133 \<or> c = 160 \<or> c = 5760 \<or>
     (8192 \<le> c \<and> c \<le> 8202) \<or> c = 8232 \<or> c = 8233 \<or> c = 8239 \<or> c = 8287 \<or> c = 12288"

text \<open>
  The decimal digits (general category Nd, the class \<open>\d\<close> of \<open>re\<close> and the digits
  \<open>int()\<close> and \<open>float()\<close> accept) come in runs of ten consecutive code points; the list
  holds the zero of each run (Unicode 14, as in CPython 3.11).
\<close>

definition decimal_zeros :: "cp list" where
  "decimal_zeros =
    [48, 1632, 1776, 1984, 2406, 2534, 2662, 2790, 2918, 3046, 3174, 3302, 3430, 3558,
     3664, 3792, 3872, 4160, 4240, 6112, 6160, 6470, 6608, 6784, 6800, 6992, 7088, 7232,
     7248, 42528, 43216, 43264, 43472, 43504, 43600, 44016, 65296, 66720, 68912, 69734,
     69872, 69942, 70096, 70384, 70736, 70864, 71248, 71360, 71472, 71904, 72016, 72784,
     73040, 73120, 92768, 92864, 93008, 120782, 120792, 120802, 120812, 120822, 123200,
     123632, 125264, 130032]"

definition todecimal :: "cp \<Rightarrow> int option" where
  "todecimal c = map_option (\<lambda>z. c - z) (find (\<lambda>z. z \<le> c \<and> c \<le> z + 9) decimal_zeros)"

definition isdecimal :: "cp \<Rightarrow> bool" where
  "isdecimal c \<longleftrightarrow> todecimal c \<noteq> None"

definition digit_of :: "cp \<Rightarrow> int" where
  "digit_of c = (case todecimal c of Some d \<Rightarrow> d | None \<Rightarrow> 0)"

definition digits_val :: "pystr \<Rightarrow> int" where
  "digits_val ds = foldl (\<lambda>a c. 10 * a + digit_of c) 0 ds"

text \<open>
  Lower-casing. Only the comparisons with \<open>'kg'\<close> and \<open>'100g'\<close> and the letters \<open>x\<close> and
  \<open>g\<close> of the pack-size pattern depend on it, so \<open>tolower\<close> maps the code points whose
  lower case is an ASCII letter (A..Z and U+212A KELVIN SIGN) and leaves every other code
  point as it is: the lower case of any other code point is not ASCII.
\<close>

definition ascii_lower :: "cp \<Rightarrow> cp" where
  "ascii_lower c = (if 65 \<le> c \<and> c \<le> 90 then c + 32 else c)"

definition tolower :: "cp \<Rightarrow> cp" where
  "tolower c = (if c = 8490 then 107 else ascii_lower c)"

definition str_lower :: "pystr \<Rightarrow> pystr" where
  "str_lower s = map tolower s"

definition str_strip :: "pystr \<Rightarrow> pystr" where
  "str_strip s = rev (dropWhile isspace (rev (dropWhile isspace s)))"

text \<open>\<open>s.replace(old, new)\<close> for a one-character \<open>old\<close>, the only use the source makes.\<close>

definition str_replace :: "cp \<Rightarrow> pystr \<Rightarrow> pystr \<Rightarrow> pystr" where
  "str_replace old new s = concat (map (\<lambda>c. if c = old then new else [c]) s)"

fun str_of_nat :: "nat \<Rightarrow> pystr" where
  "str_of_nat n = (if n < 10 then [48 + int n] else str_of_nat (n div 10) @ [48 + int (n mod 10)])"

declare str_of_nat.simps [simp del]

section \<open>Python numbers\<close>

datatype pyerror = ValueError | TypeError | ZeroDivisionError | OverflowError | TimeoutError

text \<open>
  A \<open>float\<close> is an IEEE double. The model keeps what the control flow of the source can
  depend on: the special values, the comparisons (every comparison with NaN is false), the
  range (a result beyond the largest double is an infinity, and converting such an \<open>int\<close>
  raises \<open>OverflowError\<close>) and division by zero. A finite value is held as a rational
  number: rounding to 53 bits and underflow are not modelled, and the two zeros are one.
\<close>

datatype pyfloat = Finite rat | PInf | NInf | NaN

definition dbl_limit :: rat where
  "dbl_limit = 2 ^ 1024 - 2 ^ 970"

definition fl :: "rat \<Rightarrow> pyfloat" where
  "fl r = (if dbl_limit \<le> r then PInf else if r \<le> - dbl_limit then NInf else Finite r)"

definition flt :: "pyfloat \<Rightarrow> pyfloat \<Rightarrow> bool" where
  "flt a b = (case (a, b) of
      (Finite x, Finite y) \<Rightarrow> x < y
    | (Finite x, PInf) \<Rightarrow> True
    | (NInf, Finite y) \<Rightarrow> True
    | (NInf, PInf) \<Rightarrow> True
    | _ \<Rightarrow> False)"

definition fle :: "pyfloat \<Rightarrow> pyfloat \<Rightarrow> bool" where
  "fle a b = (case (a, b) of
      (Finite x, Finite y) \<Rightarrow> x \<le> y
    | (Finite x, PInf) \<Rightarrow> True
    | (NInf, Finite y) \<Rightarrow> True
    | (NInf, PInf) \<Rightarrow> True
    | (NInf, NInf) \<Rightarrow> True
    | (PInf, PInf) \<Rightarrow> True
    | _ \<Rightarrow> False)"

definition fgt :: "pyfloat \<Rightarrow> pyfloat \<Rightarrow> bool" where
  "fgt a b = flt b a"

definition fsign :: "pyfloat \<Rightarrow> int" where
  "fsign a = (case a of Finite x \<Rightarrow> (if x < 0 then -1 else if x = 0 then 0 else 1)
                      | PInf \<Rightarrow> 1 | NInf \<Rightarrow> -1 | NaN \<Rightarrow> 0)"

fun fmul :: "pyfloat \<Rightarrow> pyfloat \<Rightarrow> pyfloat" where
  "fmul (Finite x) (Finite y) = fl (x * y)"
| "fmul NaN _ = NaN"
| "fmul _ NaN = NaN"
| "fmul a b = (if fsign a * fsign b = 0 then NaN else if 0 < fsign a * fsign b then PInf else NInf)"

text \<open>\<open>a / b\<close> on floats: a zero divisor raises, whatever the dividend.\<close>

fun py_truediv :: "pyfloat \<Rightarrow> pyfloat \<Rightarrow> pyerror + pyfloat" where
  "py_truediv a (Finite y) =
     (if y = 0 then Inl ZeroDivisionError
      else Inr (case a of
                  Finite x \<Rightarrow> fl (x / y)
                | NaN \<Rightarrow> NaN
                | PInf \<Rightarrow> (if 0 < y then PInf else NInf)
                | NInf \<Rightarrow> (if 0 < y then NInf else PInf)))"
| "py_truediv NaN _ = Inr NaN"
| "py_truediv _ NaN = Inr NaN"
| "py_truediv (Finite x) _ = Inr (Finite 0)"
| "py_truediv _ _ = Inr NaN"

text \<open>The conversion of an \<open>int\<close> operand of a float operation.\<close>

definition float_of_int :: "int \<Rightarrow> pyerror + pyfloat" where
  "float_of_int n =
     (if dbl_limit \<le> \<bar>of_int n\<bar> then Inl OverflowError else Inr (Finite (of_int n)))"

subsection \<open>\<open>float(str)\<close> and \<open>int(str)\<close>\<close>

text \<open>
  Both first map every decimal digit to its ASCII digit and every non-ASCII white space to
  a blank, then strip ASCII white space; so the characters stripped are U+0009..U+000D,
  U+0020 and the white space from U+007F on (not U+001C..U+001F).
\<close>

definition num_space :: "cp \<Rightarrow> bool" where
  "num_space c \<longleftrightarrow> (9 \<le> c \<and> c \<le> 13) \<or> c = 32 \<or> (127 \<le> c \<and> isspace c)"

definition num_strip :: "pystr \<Rightarrow> pystr" where
  "num_strip s = rev (dropWhile num_space (rev (dropWhile num_space s)))"

text \<open>An underscore is accepted only between two digits; the flag is "the previous
  character was a digit".\<close>

fun underscores_ok :: "bool \<Rightarrow> pystr \<Rightarrow> bool" where
  "underscores_ok prev [] = True"
| "underscores_ok prev (c # cs) =
     (if c = 95
      then prev \<and> (case cs of [] \<Rightarrow> False | d # _ \<Rightarrow> isdecimal d) \<and> underscores_ok False cs
      else underscores_ok (isdecimal c) cs)"

definition split_sign :: "pystr \<Rightarrow> bool \<times> pystr" where
  "split_sign t = (case t of
      [] \<Rightarrow> (False, [])
    | c # cs \<Rightarrow> if c = 45 then (True, cs) else if c = 43 then (False, cs) else (False, t))"

text \<open>
  The unsigned \<open>floatnumber\<close> of the grammar of \<open>float()\<close>:
  \<open>([digits] "." digits | digits ["."]) [("e"|"E") ["+"|"-"] digits]\<close>.
\<close>

definition parse_number :: "pystr \<Rightarrow> rat option" where
  "parse_number s =
    (let ip = takeWhile isdecimal s;
         r1 = dropWhile isdecimal s;
         (fp, r2) = (case r1 of
                       [] \<Rightarrow> ([], [])
                     | c # cs \<Rightarrow> if c = 46 then (takeWhile isdecimal cs, dropWhile isdecimal cs)
                                else ([], r1));
         mant = (of_int (digits_val (ip @ fp)) :: rat) / 10 ^ length fp
     in if ip = [] \<and> fp = [] then None
        else (case r2 of
                [] \<Rightarrow> Some mant
              | e # es \<Rightarrow>
                  if e = 101 \<or> e = 69
                  then (let (neg, ds) = split_sign es
                        in if ds \<noteq> [] \<and> list_all isdecimal ds
                           then Some (if neg then mant / 10 ^ nat (digits_val ds)
                                      else mant * 10 ^ nat (digits_val ds))
                           else None)
                  else None))"

definition py_float :: "pystr \<Rightarrow> pyerror + pyfloat" where
  "py_float s =
    (if \<not> underscores_ok False s then Inl ValueError
     else
       (let (neg, body) = split_sign (filter (\<lambda>c. c \<noteq> 95) (num_strip s));
            lw = map ascii_lower body
        in if lw = ascii ''inf'' \<or> lw = ascii ''infinity'' then Inr (if neg then NInf else PInf)
           else if lw = ascii ''nan'' then Inr NaN
           else (case parse_number body of
                   None \<Rightarrow> Inl ValueError
                 | Some r \<Rightarrow> Inr (fl (if neg then - r else r)))))"

text \<open>
  \<open>int(str)\<close> in base 10; CPython 3.11 refuses more than 4300 digits with \<open>ValueError\<close>.
\<close>

definition py_int :: "pystr \<Rightarrow> pyerror + int" where
  "py_int s =
    (let (neg, body) = split_sign (num_strip s);
         ds = filter (\<lambda>c. c \<noteq> 95) body
     in if \<not> underscores_ok False body \<or> ds = [] \<or> \<not> list_all isdecimal ds then Inl ValueError
        else if 4300 < int (length ds) then Inl ValueError
        else Inr (if neg then - digits_val ds else digits_val ds))"

section \<open>The regular expressions of the source\<close>

text \<open>
  \<open>re\<close> is a backtracking matcher. The two patterns of the source use character classes,
  greedy \<open>*\<close> and \<open>+\<close> on a character class, sequence, alternation, an optional group and
  numbered capture groups, so that is the syntax modelled. \<open>rmatch r s g\<close> lists, in the
  order the matcher tries them, the ways \<open>r\<close> matches a prefix of \<open>s\<close>: each with the
  text left over and the groups captured; the head of the list is the match \<open>re\<close> reports.
\<close>

datatype regex =
    Cls "cp \<Rightarrow> bool"
  | Star "cp \<Rightarrow> bool"
  | Plus "cp \<Rightarrow> bool"
  | Seq regex regex
  | Alt regex regex
  | Opt regex
  | Grp nat regex

type_synonym groups = "nat \<rightharpoonup> pystr"

text \<open>What is left after a greedy \<open>p*\<close>, longest repetition first.\<close>

fun star_rests :: "(cp \<Rightarrow> bool) \<Rightarrow> pystr \<Rightarrow> pystr list" where
  "star_rests p [] = [[]]"
| "star_rests p (x # xs) = (if p x then star_rests p xs else []) @ [x # xs]"

fun rmatch :: "regex \<Rightarrow> pystr \<Rightarrow> groups \<Rightarrow> (pystr \<times> groups) list" where
  "rmatch (Cls p) s g = (case s of [] \<Rightarrow> [] | x # xs \<Rightarrow> if p x then [(xs, g)] else [])"
| "rmatch (Star p) s g = map (\<lambda>r. (r, g)) (star_rests p s)"
| "rmatch (Plus p) s g =
     (case s of [] \<Rightarrow> [] | x # xs \<Rightarrow> if p x then map (\<lambda>r. (r, g)) (star_rests p xs) else [])"
| "rmatch (Seq a b) s g = concat (map (\<lambda>(r, g'). rmatch b r g') (rmatch a s g))"
| "rmatch (Alt a b) s g = rmatch a s g @ rmatch b s g"
| "rmatch (Opt a) s g = rmatch a s g @ [(s, g)]"
| "rmatch (Grp n a) s g =
     map (\<lambda>(r, g'). (r, g'(n \<mapsto> take (length s - length r) s))) (rmatch a s g)"

text \<open>\<open>re.search\<close>: the first match at the leftmost position that has one.\<close>

fun re_search :: "regex \<Rightarrow> pystr \<Rightarrow> groups option" where
  "re_search r [] = (case rmatch r [] Map.empty of [] \<Rightarrow> None | (_, g) # _ \<Rightarrow> Some g)"
| "re_search r (x # xs) =
     (case rmatch r (x # xs) Map.empty of [] \<Rightarrow> re_search r xs | (_, g) # _ \<Rightarrow> Some g)"

text \<open>\<open>match.group(n)\<close>; both groups of both patterns take part in every match.\<close>

definition group :: "groups \<Rightarrow> nat \<Rightarrow> pystr" where
  "group g n = (case g n of Some t \<Rightarrow> t | None \<Rightarrow> [])"

definition lit :: "cp \<Rightarrow> regex" where
  "lit c = Cls (\<lambda>x. x = c)"

text \<open>A literal letter under \<open>re.IGNORECASE\<close>.\<close>

definition lit_i :: "cp \<Rightarrow> regex" where
  "lit_i c = Cls (\<lambda>x. tolower x = c)"

text \<open>\<^verbatim>\<open>(\d+)\s*x\s*(\d+)\s*g\<close> with \<open>re.IGNORECASE\<close> (x is 120, g is 103).\<close>

definition pack_re :: regex where
  "pack_re =
     Seq (Grp 1 (Plus isdecimal))
    (Seq (Star isspace)
    (Seq (lit_i 120)
    (Seq (Star isspace)
    (Seq (Grp 2 (Plus isdecimal))
    (Seq (Star isspace)
         (lit_i 103))))))"

text \<open>
  \<^verbatim>\<open>([\d.,\s]+)\<close>\<euro>\<^verbatim>\<open>\s*(?:/|/\s*|/)?\s*(kg|100\s*g)\<close>, with no flag: it is case-sensitive
  (the dot is 46, the comma 44, the slash 47, k 107, g 103, the digits 1 and 0 are 49 and 48).
\<close>

definition unit_unit_re :: regex where
  "unit_unit_re =
     Alt (Seq (lit 107) (lit 103))
         (Seq (lit 49) (Seq (lit 48) (Seq (lit 48) (Seq (Star isspace) (lit 103)))))"

definition unit_re :: regex where
  "unit_re =
     Seq (Grp 1 (Plus (\<lambda>c. isdecimal c \<or> c = 46 \<or> c = 44 \<or> isspace c)))
    (Seq (lit euro)
    (Seq (Star isspace)
    (Seq (Opt (Alt (lit 47) (Alt (Seq (lit 47) (Star isspace)) (lit 47))))
    (Seq (Star isspace)
         (Grp 2 unit_unit_re)))))"

section \<open>Computation and transformation (part 2 of the source)\<close>

text \<open>
  \<open>_nettoyer_prix_total\<close>; \<open>prix_net\<close> is its local variable. The \<open>try\<close> catches
  \<open>ValueError\<close> only; any other exception of \<open>float\<close> would leave the function.
\<close>

definition prix_net :: "pystr \<Rightarrow> pystr" where
  "prix_net prix_str =
     str_strip (str_replace 44 [46] (str_replace 32 []
       (str_replace nbsp [] (str_replace euro [] prix_str))))"

definition nettoyer_prix_total :: "pystr \<Rightarrow> pyerror + pyfloat" where
  "nettoyer_prix_total prix_str =
    (if prix_str = [] \<or> prix_str = ascii ''N/A'' then Inr (Finite 0)
     else (case py_float (prix_net prix_str) of
             Inr v \<Rightarrow> Inr v
           | Inl e \<Rightarrow> if e = ValueError then Inr (Finite 0) else Inl e))"

definition calculer_prix_au_kg_direct :: "pyfloat \<Rightarrow> pystr \<Rightarrow> pyfloat" where
  "calculer_prix_au_kg_direct valeur unite =
    (if fle valeur (Finite 0) then Finite 0
     else
       (let unite' = str_strip (str_lower unite)
        in if unite' = ascii ''kg'' then valeur
           else if unite' = ascii ''100g'' then fmul valeur (Finite 10)
           else Finite 0))"

text \<open>
  The body of the \<open>try\<close> of \<open>calculer_prix_par_format\<close>: \<open>Inl\<close> an exception raised in it,
  \<open>Inr (Some v)\<close> its \<open>return v\<close>, \<open>Inr None\<close> when it ends without returning. The product
  of the two \<open>int\<close>s is converted to \<open>float\<close> for the division by \<open>1000.0\<close>.
\<close>

definition format_try :: "pyfloat \<Rightarrow> groups \<Rightarrow> pyerror + pyfloat option" where
  "format_try prix_total match_format =
    (case py_int (group match_format 1) of
       Inl e \<Rightarrow> Inl e
     | Inr nombre_unites \<Rightarrow>
    (case py_int (group match_format 2) of
       Inl e \<Rightarrow> Inl e
     | Inr poids_par_unite_g \<Rightarrow>
    (case float_of_int (nombre_unites * poids_par_unite_g) of
       Inl e \<Rightarrow> Inl e
     | Inr produit_f \<Rightarrow>
    (case py_truediv produit_f (Finite 1000) of
       Inl e \<Rightarrow> Inl e
     | Inr poids_total_kg \<Rightarrow>
         if fgt poids_total_kg (Finite 0)
         then (case py_truediv prix_total poids_total_kg of
                 Inl e \<Rightarrow> Inl e
               | Inr v \<Rightarrow> Inr (Some v))
         else Inr None))))"

definition calculer_prix_par_format :: "pystr \<Rightarrow> pystr \<Rightarrow> pyerror + pyfloat" where
  "calculer_prix_par_format prix_total_str0 titre0 =
    (case nettoyer_prix_total prix_total_str0 of
       Inl e \<Rightarrow> Inl e
     | Inr prix_total \<Rightarrow>
         if fle prix_total (Finite 0) then Inr (Finite 0)
         else (case re_search pack_re titre0 of
                 None \<Rightarrow> Inr (Finite 0)
               | Some match_format \<Rightarrow>
                   (case format_try prix_total match_format of
                      Inr (Some v) \<Rightarrow> Inr v
                    | Inr None \<Rightarrow> Inr (Finite 0)
                    | Inl e \<Rightarrow>
                        if e = ValueError \<or> e = TypeError \<or> e = ZeroDivisionError
                        then Inr (Finite 0) else Inl e)))"

section \<open>Extraction (part 3 of the source)\<close>

text \<open>
  The core reads a product block through four selections only, so a \<open>Tag\<close> is the record of
  what they give: the \<open>.text\<close> of the first title element, the first link element with its
  \<open>href\<close> attribute (each if there is one), the \<open>.text\<close> of the first total-price element, and
  the secondary-text spans in document order, each as the list of its text nodes.
\<close>

record Tag =
  select_titre :: "pystr option"
  select_lien :: "pystr option option"
  select_prix_total :: "pystr option"
  select_prix_unitaire :: "pystr list list"

text \<open>\<open>span.get_text(strip=True)\<close>: every text node stripped, the empty ones dropped.\<close>

definition get_text_strip :: "pystr list \<Rightarrow> pystr" where
  "get_text_strip nodes = concat (filter (\<lambda>t. t \<noteq> []) (map str_strip nodes))"

text \<open>
  The loop of \<open>_extraire_prix_unitaire_amazon\<close> over the spans left, with the three local
  variables as they stand. \<open>break\<close> ends it, \<open>continue\<close> goes on with \<open>prix_unitaire_texte\<close>
  already assigned.
\<close>

fun extraire_boucle ::
  "pystr list list \<Rightarrow> pyfloat \<times> pystr \<times> pystr \<Rightarrow> pyerror + (pyfloat \<times> pystr \<times> pystr)" where
  "extraire_boucle [] (valeur, unite, texte_v) = Inr (valeur, unite, texte_v)"
| "extraire_boucle (bloc # spans) (valeur, unite, texte_v) =
    (let texte = get_text_strip bloc
     in case re_search unit_re texte of
          None \<Rightarrow> extraire_boucle spans (valeur, unite, texte_v)
        | Some m \<Rightarrow>
            (let valeur_str = str_strip (str_replace 32 [] (str_replace 44 [46] (group m 1)));
                 unite_str = str_strip (str_replace 32 [] (group m 2))
             in case py_float valeur_str of
                  Inr v \<Rightarrow> Inr (v, unite_str, texte)
                | Inl e \<Rightarrow> if e = ValueError then extraire_boucle spans (valeur, unite, texte)
                           else Inl e))"

definition extraire_prix_unitaire_amazon ::
  "pystr list list \<Rightarrow> pyerror + (pyfloat \<times> pystr \<times> pystr)" where
  "extraire_prix_unitaire_amazon prix_blocs =
     extraire_boucle prix_blocs (Finite 0, ascii ''N/A'', ascii ''N/A'')"

section \<open>Listings\<close>

text \<open>The dataclass \<open>ProduitAmazon\<close>; the last five fields have defaults.\<close>

record ProduitAmazon =
  id_produit :: pystr
  titre :: pystr
  prix_total_str :: pystr
  lien :: pystr
  prix_unitaire_kg :: pyfloat
  source_prix_kg :: pystr
  prix_unitaire_texte_amazon :: pystr
  prix_unitaire_valeur_amazon :: pyfloat
  prix_unitaire_unite_amazon :: pystr

text \<open>
  Listings are mutable objects shared by reference between the lists of the program. The
  store holds the objects in the order of their creation; a reference is an index into it.
\<close>

type_synonym store = "ProduitAmazon list"
type_synonym ref = nat

definition new_obj :: "store \<Rightarrow> ProduitAmazon \<Rightarrow> store \<times> ref" where
  "new_obj h v = (h @ [v], length h)"

definition set_attr :: "store \<Rightarrow> ref \<Rightarrow> (ProduitAmazon \<Rightarrow> ProduitAmazon) \<Rightarrow> store" where
  "set_attr h r f = h[r := f (h ! r)]"

definition URL_BASE_AMAZON :: pystr where
  "URL_BASE_AMAZON = ascii ''https://www.amazon.fr''"

definition MAX_PAGES :: nat where
  "MAX_PAGES = 3"

text \<open>The string constants with an e acute (233).\<close>

definition titre_non_trouve :: pystr where
  "titre_non_trouve = ascii ''Titre non trouv'' @ [233]"

definition lien_non_trouve :: pystr where
  "lien_non_trouve = ascii ''Lien non trouv'' @ [233]"

definition source_direct :: pystr where
  "source_direct = ascii ''Amazon (Direct)''"

definition source_format :: pystr where
  "source_format = ascii ''Calcul'' @ [233] @ ascii '' (NxG)''"

definition source_defaut :: pystr where
  "source_defaut = ascii ''N/A''"

text \<open>
  Step 1 of \<open>_traiter_produit\<close>, the basic data: the title, the link and the raw total
  price, each with its default when the element is missing.
\<close>

definition titre_de :: "Tag \<Rightarrow> pystr" where
  "titre_de produit =
     (case select_titre produit of Some t \<Rightarrow> str_strip t | None \<Rightarrow> titre_non_trouve)"

definition lien_de :: "Tag \<Rightarrow> pystr" where
  "lien_de produit =
     (case select_lien produit of
        Some a \<Rightarrow> URL_BASE_AMAZON @ (case a of Some href \<Rightarrow> href | None \<Rightarrow> lien_non_trouve)
      | None \<Rightarrow> lien_non_trouve)"

definition prix_total_de :: "Tag \<Rightarrow> pystr" where
  "prix_total_de produit =
     (case select_prix_total produit of Some t \<Rightarrow> t | None \<Rightarrow> ascii ''N/A'')"

text \<open>
  \<open>_traiter_produit\<close>, with the pack-size function it calls as a parameter (Python looks
  the global \<open>calculer_prix_par_format\<close> up when the call is made, so a test can put a
  double in its place). The result is the store and the reference returned or the exception
  raised; the lines that only print are left out.
\<close>

definition traiter_produit_avec ::
  "(pystr \<Rightarrow> pystr \<Rightarrow> pyerror + pyfloat) \<Rightarrow> store \<Rightarrow> Tag \<Rightarrow> pystr \<Rightarrow> store \<times> (pyerror + ref)" where
  "traiter_produit_avec par_format h produit id_prefix =
    (let (h1, r) = new_obj h
           \<lparr>id_produit = id_prefix, titre = titre_de produit,
            prix_total_str = prix_total_de produit, lien = lien_de produit,
            prix_unitaire_kg = Finite 0, source_prix_kg = source_defaut,
            prix_unitaire_texte_amazon = ascii ''N/A'', prix_unitaire_valeur_amazon = Finite 0,
            prix_unitaire_unite_amazon = ascii ''N/A''\<rparr>
     in case extraire_prix_unitaire_amazon (select_prix_unitaire produit) of
          Inl e \<Rightarrow> (h1, Inl e)
        | Inr (valeur_amz, unite_amz, texte_amz) \<Rightarrow>
            (let h2 = set_attr h1 r (\<lambda>p. p\<lparr>prix_unitaire_valeur_amazon := valeur_amz\<rparr>);
                 h3 = set_attr h2 r (\<lambda>p. p\<lparr>prix_unitaire_unite_amazon := unite_amz\<rparr>);
                 h4 = set_attr h3 r (\<lambda>p. p\<lparr>prix_unitaire_texte_amazon := texte_amz\<rparr>);
                 prix_kg_direct = calculer_prix_au_kg_direct valeur_amz unite_amz
             in if fgt prix_kg_direct (Finite 0)
                then (let h5 = set_attr h4 r (\<lambda>p. p\<lparr>prix_unitaire_kg := prix_kg_direct\<rparr>);
                          h6 = set_attr h5 r (\<lambda>p. p\<lparr>source_prix_kg := source_direct\<rparr>)
                      in (h6, Inr r))
                else (case par_format (prix_total_de produit) (titre_de produit) of
                        Inl e \<Rightarrow> (h4, Inl e)
                      | Inr prix_calcule_format \<Rightarrow>
                          if fgt prix_calcule_format (Finite 0)
                          then (let h5 = set_attr h4 r (\<lambda>p. p\<lparr>prix_unitaire_kg := prix_calcule_format\<rparr>);
                                    h6 = set_attr h5 r (\<lambda>p. p\<lparr>source_prix_kg := source_format\<rparr>)
                                in (h6, Inr r))
                          else (h4, Inr r))))"

definition traiter_produit :: "store \<Rightarrow> Tag \<Rightarrow> pystr \<Rightarrow> store \<times> (pyerror + ref)" where
  "traiter_produit = traiter_produit_avec calculer_prix_par_format"

text \<open>
  The loop of \<open>extraire_donnees_page\<close> over \<open>enumerate(produits)\<close>: \<open>except Exception\<close>
  skips the block whose processing raised. 82 is the letter R.
\<close>

fun extraire_page_boucle ::
  "store \<Rightarrow> (nat \<times> Tag) list \<Rightarrow> nat \<Rightarrow> ref list \<Rightarrow> store \<times> ref list" where
  "extraire_page_boucle h [] row_num_base resultats = (h, resultats)"
| "extraire_page_boucle h ((i, produit) # reste) row_num_base resultats =
    (let produit_id = 82 # str_of_nat (row_num_base + i + 1)
     in case traiter_produit h produit produit_id of
          (h', Inr produit_data) \<Rightarrow>
            extraire_page_boucle h' reste row_num_base (resultats @ [produit_data])
        | (h', Inl e) \<Rightarrow> extraire_page_boucle h' reste row_num_base resultats)"

definition extraire_donnees_page :: "store \<Rightarrow> Tag list \<Rightarrow> nat \<Rightarrow> store \<times> ref list" where
  "extraire_donnees_page h produits row_num_base =
     extraire_page_boucle h (enumerate 0 produits) row_num_base []"

section \<open>Cleaning, sorting and the main loop (part 5 of the source)\<close>

text \<open>
  \<open>sorted(xs, key=k)\<close> is a stable sort that compares keys with \<open><\<close> only. It is modelled
  by the stable insertion sort; on keys that \<open><\<close> orders totally (no NaN among them: the
  filter before it keeps keys \<open>> 0.0\<close> only) every stable sort returns the same list.
\<close>

fun insert_sorted :: "('a \<Rightarrow> pyfloat) \<Rightarrow> 'a \<Rightarrow> 'a list \<Rightarrow> 'a list" where
  "insert_sorted k x [] = [x]"
| "insert_sorted k x (y # ys) =
     (if flt (k y) (k x) then y # insert_sorted k x ys else x # y # ys)"

definition py_sorted :: "('a \<Rightarrow> pyfloat) \<Rightarrow> 'a list \<Rightarrow> 'a list" where
  "py_sorted k xs = foldr (insert_sorted k) xs []"

text \<open>
  \<open>nettoyer_et_trier_resultats\<close> reads the listings of its argument in the store and
  assigns to no attribute; it returns the store with the new list.
\<close>

definition nettoyer_et_trier_resultats :: "store \<Rightarrow> ref list \<Rightarrow> store \<times> ref list" where
  "nettoyer_et_trier_resultats h resultats =
    (let resultats_filtres = filter (\<lambda>r. fgt (prix_unitaire_kg (h ! r)) (Finite 0)) resultats;
         resultats_tries = py_sorted (\<lambda>x. prix_unitaire_kg (h ! x)) resultats_filtres
     in (h, resultats_tries))"

text \<open>
  The page loop of \<open>main\<close>. The browser is the parameter \<open>charger\<close>: for a page number, either
  the product blocks of the rendered page or the exception of \<open>goto\<close>, \<open>wait_for_selector\<close>
  or \<open>content\<close>, on which the loop \<open>break\<close>s.
\<close>

fun main_boucle ::
  "(nat \<Rightarrow> pyerror + Tag list) \<Rightarrow> nat list \<Rightarrow> store \<Rightarrow> ref list \<Rightarrow> nat \<Rightarrow> store \<times> ref list" where
  "main_boucle charger [] h total_resultats current_row = (h, total_resultats)"
| "main_boucle charger (page_num # pages) h total_resultats current_row =
    (case charger page_num of
       Inl e \<Rightarrow> (h, total_resultats)
     | Inr produits \<Rightarrow>
         (let (h', resultats_page) = extraire_donnees_page h produits current_row
          in main_boucle charger pages h' (total_resultats @ resultats_page)
               (current_row + length resultats_page)))"

text \<open>\<open>main\<close> up to the list handed to the CSV writer: the store, \<open>total_resultats\<close> and
  \<open>produits_tries\<close>.\<close>

definition main :: "(nat \<Rightarrow> pyerror + Tag list) \<Rightarrow> store \<times> ref list \<times> ref list" where
  "main charger =
    (let (h, total_resultats) = main_boucle charger [1..<MAX_PAGES + 1] [] [] 0;
         (h', produits_tries) = nettoyer_et_trier_resultats h total_resultats
     in (h', total_resultats, produits_tries))"

section \<open>Notions used in the statements\<close>


text \<open>
  The invariant of the data model: a positive price per kilogram with a source other than
  the default one, or the price 0.0 with the default source (the "unresolved" tag of the
  specification is the default \<open>N/A\<close> of the dataclass).
\<close>

definition listing_inv :: "ProduitAmazon \<Rightarrow> bool" where
  "listing_inv p \<longleftrightarrow>
     (fgt (prix_unitaire_kg p) (Finite 0) \<and> source_prix_kg p \<noteq> source_defaut) \<or>
     (prix_unitaire_kg p = Finite 0 \<and> source_prix_kg p = source_defaut)"

text \<open>The five listings of the ranking example, with the prices 0.0, 12.5, 0.0, 8.0, 8.0.\<close>

definition listing_exemple :: "nat \<Rightarrow> pyfloat \<Rightarrow> pystr \<Rightarrow> ProduitAmazon" where
  "listing_exemple n k src =
     \<lparr>id_produit = 82 # str_of_nat n, titre = [], prix_total_str = [], lien = [],
      prix_unitaire_kg = k, source_prix_kg = src,
      prix_unitaire_texte_amazon = ascii ''N/A'', prix_unitaire_valeur_amazon = Finite 0,
      prix_unitaire_unite_amazon = ascii ''N/A''\<rparr>"

definition store_exemple :: store where
  "store_exemple =
     [listing_exemple 1 (Finite 0) source_defaut,
      listing_exemple 2 (Finite (25 / 2)) source_direct,
      listing_exemple 3 (Finite 0) source_defaut,
      listing_exemple 4 (Finite 8) source_format,
      listing_exemple 5 (Finite 8) source_direct]"

text \<open>The match \<open>re\<close> reports at a position: the first one the matcher finds.\<close>

definition re_first :: "regex \<Rightarrow> pystr \<Rightarrow> groups \<Rightarrow> pystr \<times> groups \<Rightarrow> bool" where
  "re_first re s g res \<longleftrightarrow> (case rmatch re s g of [] \<Rightarrow> False | x # _ \<Rightarrow> x = res)"

text \<open>
  What one span gives when it is a successful match: the pattern matches its text and
  \<open>float\<close> accepts the amount (the body of the loop of \<open>_extraire_prix_unitaire_amazon\<close>
  up to its \<open>break\<close>).
\<close>

definition essai :: "pystr list \<Rightarrow> (pyfloat \<times> pystr \<times> pystr) option" where
  "essai bloc =
    (let texte = get_text_strip bloc
     in case re_search unit_re texte of
          None \<Rightarrow> None
        | Some m \<Rightarrow>
            (case py_float (str_strip (str_replace 32 [] (str_replace 44 [46] (group m 1)))) of
               Inr v \<Rightarrow> Some (v, str_strip (str_replace 32 [] (group m 2)), texte)
             | Inl e \<Rightarrow> None))"

text \<open>
  The later points of the life of a listing: the store after any number of calls of the two
  functions of the program that work on listings.
\<close>

inductive store_step :: "store \<Rightarrow> store \<Rightarrow> bool" where
  step_traiter: "traiter_produit h t i = (h', res) \<Longrightarrow> store_step h h'"
| step_trier: "nettoyer_et_trier_resultats h rs = (h', out) \<Longrightarrow> store_step h h'"

text \<open>
  The identifier scheme in the words of the specification. A block is collected when its
  processing raises nothing; \<open>ids_page n\<close> gives, for a page reached with the running
  count \<open>n\<close>, the identifiers of its collected blocks: R followed by \<open>n\<close> plus the 1-based
  index of the block in the page; \<open>ids_attendus\<close> does so page after page, the running
  count growing by the number of listings each page gave; \<open>pages_chargees\<close> are the pages
  loaded before the first failure.
\<close>

definition collecte :: "Tag \<Rightarrow> bool" where
  "collecte t = (case snd (traiter_produit [] t []) of Inr _ \<Rightarrow> True | Inl _ \<Rightarrow> False)"

definition ids_blocs :: "nat \<Rightarrow> (nat \<times> Tag) list \<Rightarrow> pystr list" where
  "ids_blocs n blocs =
     map (\<lambda>(i, t). 82 # str_of_nat (n + (i + 1))) (filter (\<lambda>(i, t). collecte t) blocs)"

definition ids_page :: "nat \<Rightarrow> Tag list \<Rightarrow> pystr list" where
  "ids_page n produits = ids_blocs n (enumerate 0 produits)"

fun ids_attendus :: "nat \<Rightarrow> Tag list list \<Rightarrow> pystr list" where
  "ids_attendus n [] = []"
| "ids_attendus n (page # pages) =
     ids_page n page @ ids_attendus (n + length (ids_page n page)) pages"

fun pages_chargees :: "(nat \<Rightarrow> pyerror + Tag list) \<Rightarrow> nat list \<Rightarrow> Tag list list" where
  "pages_chargees charger [] = []"
| "pages_chargees charger (n # ns) =
     (case charger n of Inl e \<Rightarrow> [] | Inr produits \<Rightarrow> produits # pages_chargees charger ns)"

text \<open>
  A run used as example: four product blocks and a browser. The first block has a unit
  price of the site and a pack size in its title, the second a pack size only, the third
  nothing; the title of the fourth holds a number too large for a \<open>float\<close>. Page 1 holds
  the first, the fourth and the second block, page 2 the third, and page 3 times out.
\<close>

definition tag_direct :: Tag where
  "tag_direct =
     \<lparr>select_titre = Some (ascii ''Barre A 12x64g''),
      select_lien = Some (Some (ascii ''/dp/A'')),
      select_prix_total = Some (ascii ''19,99 '' @ [euro]),
      select_prix_unitaire =
        [[ascii ''Livraison GRATUITE''], [ascii ''(20,50 '' @ [euro] @ ascii ''/kg)'']]\<rparr>"

definition tag_format :: Tag where
  "tag_format =
     \<lparr>select_titre = Some (ascii '' Barre B 10x50g ''),
      select_lien = Some None,
      select_prix_total = Some (ascii ''15,00 '' @ [euro]),
      select_prix_unitaire = []\<rparr>"

definition tag_aucun :: Tag where
  "tag_aucun =
     \<lparr>select_titre = None, select_lien = None, select_prix_total = None,
      select_prix_unitaire = [[]]\<rparr>"

definition tag_debordement :: Tag where
  "tag_debordement =
     \<lparr>select_titre = Some (ascii ''1x'' @ replicate 310 57 @ ascii ''g''),
      select_lien = None,
      select_prix_total = Some (ascii ''1 '' @ [euro]),
      select_prix_unitaire = []\<rparr>"

definition charger_exemple :: "nat \<Rightarrow> pyerror + Tag list" where
  "charger_exemple page_num =
     (if page_num = 1 then Inr [tag_direct, tag_debordement, tag_format]
      else if page_num = 2 then Inr [tag_aucun]
      else Inl TimeoutError)"

text \<open>
  The store at the end of the example run: the listings of the four blocks in the order of
  their creation. The second one is the listing under construction when the pack-size
  function raised; no list refers to it.
\<close>

definition store_final :: store where
  "store_final =
     [\<lparr>id_produit = ascii ''R1'', titre = ascii ''Barre A 12x64g'',
       prix_total_str = ascii ''19,99 '' @ [euro], lien = URL_BASE_AMAZON @ ascii ''/dp/A'',
       prix_unitaire_kg = Finite (41 / 2), source_prix_kg = source_direct,
       prix_unitaire_texte_amazon = ascii ''(20,50 '' @ [euro] @ ascii ''/kg)'',
       prix_unitaire_valeur_amazon = Finite (41 / 2),
       prix_unitaire_unite_amazon = ascii ''kg''\<rparr>,
      \<lparr>id_produit = ascii ''R2'', titre = ascii ''1x'' @ replicate 310 57 @ ascii ''g'',
       prix_total_str = ascii ''1 '' @ [euro], lien = lien_non_trouve,
       prix_unitaire_kg = Finite 0, source_prix_kg = source_defaut,
       prix_unitaire_texte_amazon = ascii ''N/A'',
       prix_unitaire_valeur_amazon = Finite 0,
       prix_unitaire_unite_amazon = ascii ''N/A''\<rparr>,
      \<lparr>id_produit = ascii ''R3'', titre = ascii ''Barre B 10x50g'',
       prix_total_str = ascii ''15,00 '' @ [euro],
       lien = URL_BASE_AMAZON @ lien_non_trouve,
       prix_unitaire_kg = Finite 30, source_prix_kg = source_format,
       prix_unitaire_texte_amazon = ascii ''N/A'',
       prix_unitaire_valeur_amazon = Finite 0,
       prix_unitaire_unite_amazon = ascii ''N/A''\<rparr>,
      \<lparr>id_produit = ascii ''R3'', titre = titre_non_trouve,
       prix_total_str = ascii ''N/A'', lien = lien_non_trouve,
       prix_unitaire_kg = Finite 0, source_prix_kg = source_defaut,
       prix_unitaire_texte_amazon = ascii ''N/A'',
       prix_unitaire_valeur_amazon = Finite 0,
       prix_unitaire_unite_amazon = ascii ''N/A''\<rparr>]"

section \<open>Evaluation lemmas\<close>

text \<open>Below U+0660 the only decimal digits are the ASCII ones.\<close>

lemma todecimal_low:
  "c < 1632 \<Longrightarrow> todecimal c = (if 48 \<le> c \<and> c \<le> 57 then Some (c - 48) else None)"
  by (simp add: todecimal_def decimal_zeros_def)

lemma isdecimal_low: "c < 1632 \<Longrightarrow> isdecimal c = (48 \<le> c \<and> c \<le> 57)"
  by (simp add: isdecimal_def todecimal_low)

lemma digit_of_low: "c < 1632 \<Longrightarrow> digit_of c = (if 48 \<le> c \<and> c \<le> 57 then c - 48 else 0)"
  by (simp add: digit_of_def todecimal_low)

lemma fl_Finite: "- (2 ^ 1000) < r \<Longrightarrow> r < 2 ^ 1000 \<Longrightarrow> fl r = Finite r"
  by (simp add: fl_def dbl_limit_def)

lemma float_of_int_small:
  assumes "- (2 ^ 1000) < n" "n < 2 ^ 1000"
  shows "float_of_int n = Inr (Finite (of_int n))"
proof -
  have "\<bar>of_int n :: rat\<bar> < 2 ^ 1000"
    using assms by (simp add: abs_less_iff)
  moreover have "(2 :: rat) ^ 1000 \<le> dbl_limit"
    by (simp add: dbl_limit_def)
  ultimately show ?thesis
    by (simp add: float_of_int_def)
qed

lemmas str_eval =
  prix_net_def ascii_def euro_def nbsp_def isspace_def isdecimal_low digit_of_low digits_val_def
  ascii_lower_def tolower_def str_lower_def str_strip_def str_replace_def

lemmas num_eval =
  num_space_def num_strip_def split_sign_def parse_number_def py_float_def py_int_def
  float_of_int_small fl_Finite flt_def fle_def fgt_def

lemmas re_eval =
  lit_def lit_i_def pack_re_def unit_re_def unit_unit_re_def group_def

section \<open>The Direct Normalizer\<close>

text \<open>
  Claim C8. \<open>calculer_prix_au_kg_direct\<close> is a function of its two arguments, and the unit is
  compared after lower-casing and stripping: a value \<open>\<le> 0\<close> gives 0.0; otherwise the unit
  \<open>kg\<close> gives the value unchanged, the unit \<open>100g\<close> gives the value times 10 (the float
  product, which for a finite value in range is the exact product), and whatever the
  value any other unit gives 0.0. The four examples of the specification follow.
\<close>

theorem direct_normalizer_contract:
  "(fle v (Finite 0) \<longrightarrow> calculer_prix_au_kg_direct v u = Finite 0) \<and>
   (\<not> fle v (Finite 0) \<and> str_strip (str_lower u) = ascii ''kg''
      \<longrightarrow> calculer_prix_au_kg_direct v u = v) \<and>
   (\<not> fle v (Finite 0) \<and> str_strip (str_lower u) = ascii ''100g''
      \<longrightarrow> calculer_prix_au_kg_direct v u = fmul v (Finite 10)) \<and>
   (0 < x \<and> x * 10 < dbl_limit \<and> str_strip (str_lower u) = ascii ''100g''
      \<longrightarrow> calculer_prix_au_kg_direct (Finite x) u = Finite (x * 10)) \<and>
   (str_strip (str_lower u) \<noteq> ascii ''kg'' \<and> str_strip (str_lower u) \<noteq> ascii ''100g''
      \<longrightarrow> calculer_prix_au_kg_direct v u = Finite 0) \<and>
   calculer_prix_au_kg_direct (Finite (41 / 2)) (ascii ''kg'') = Finite (41 / 2) \<and>
   calculer_prix_au_kg_direct (Finite (5 / 2)) (ascii ''100g'') = Finite 25 \<and>
   calculer_prix_au_kg_direct (Finite 5) (ascii ''L'') = Finite 0 \<and>
   calculer_prix_au_kg_direct (Finite 5) (ascii ''N/A'') = Finite 0 \<and>
   calculer_prix_au_kg_direct (Finite 0) (ascii ''kg'') = Finite 0"
proof -
  have general: "\<And>w. \<not> fle w (Finite 0) \<Longrightarrow> str_strip (str_lower u) = ascii ''100g''
      \<Longrightarrow> calculer_prix_au_kg_direct w u = fmul w (Finite 10)"
    by (simp add: calculer_prix_au_kg_direct_def ascii_def)
  have scaled: "0 < x \<and> x * 10 < dbl_limit \<and> str_strip (str_lower u) = ascii ''100g''
      \<longrightarrow> calculer_prix_au_kg_direct (Finite x) u = Finite (x * 10)"
  proof (intro impI, elim conjE)
    assume pos: "0 < x" and small: "x * 10 < dbl_limit"
      and unit: "str_strip (str_lower u) = ascii ''100g''"
    have "0 < dbl_limit" by (simp add: dbl_limit_def)
    with pos small have "fl (x * 10) = Finite (x * 10)"
      by (simp add: fl_def)
    moreover from pos have "\<not> fle (Finite x) (Finite 0)"
      by (simp add: fle_def)
    ultimately show "calculer_prix_au_kg_direct (Finite x) u = Finite (x * 10)"
      using general [OF _ unit] by simp
  qed
  have ex1: "calculer_prix_au_kg_direct (Finite (41 / 2)) (ascii ''kg'') = Finite (41 / 2)"
    by (simp add: calculer_prix_au_kg_direct_def str_eval num_eval)
  have ex2: "calculer_prix_au_kg_direct (Finite (5 / 2)) (ascii ''100g'') = Finite 25"
    by (simp add: calculer_prix_au_kg_direct_def str_eval num_eval)
  have ex3: "calculer_prix_au_kg_direct (Finite 5) (ascii ''L'') = Finite 0"
    by (simp add: calculer_prix_au_kg_direct_def str_eval num_eval)
  have ex4: "calculer_prix_au_kg_direct (Finite 5) (ascii ''N/A'') = Finite 0"
    by (simp add: calculer_prix_au_kg_direct_def str_eval num_eval)
  have ex5: "calculer_prix_au_kg_direct (Finite 0) (ascii ''kg'') = Finite 0"
    by (simp add: calculer_prix_au_kg_direct_def str_eval num_eval)
  show ?thesis
    using general scaled ex1 ex2 ex3 ex4 ex5
    by (simp add: calculer_prix_au_kg_direct_def)
qed

theorem direct_normalizer_contract_witness:
  "fle (Finite (- 1)) (Finite 0) \<and>
   calculer_prix_au_kg_direct (Finite (- 1)) (ascii ''kg'') = Finite 0 \<and>
   \<not> fle (Finite (41 / 2)) (Finite 0) \<and> str_strip (str_lower (ascii '' KG '')) = ascii ''kg'' \<and>
   calculer_prix_au_kg_direct (Finite (41 / 2)) (ascii '' KG '') = Finite (41 / 2) \<and>
   \<not> fle PInf (Finite 0) \<and> str_strip (str_lower (ascii ''100G'')) = ascii ''100g'' \<and>
   calculer_prix_au_kg_direct PInf (ascii ''100G'') = fmul PInf (Finite 10) \<and>
   (0 :: rat) < 5 / 2 \<and> (5 / 2 :: rat) * 10 < dbl_limit \<and>
   calculer_prix_au_kg_direct (Finite (5 / 2)) (ascii ''100G'') = Finite (5 / 2 * 10) \<and>
   str_strip (str_lower (ascii ''100 g'')) \<noteq> ascii ''kg'' \<and>
   str_strip (str_lower (ascii ''100 g'')) \<noteq> ascii ''100g'' \<and>
   calculer_prix_au_kg_direct (Finite 3) (ascii ''100 g'') = Finite 0"
proof -
  have h1: "fle (Finite (- 1)) (Finite 0)"
    by (simp add: fle_def)
  have h2: "\<not> fle (Finite (41 / 2)) (Finite 0)" "\<not> fle PInf (Finite 0)"
    by (simp_all add: fle_def)
  have h3: "str_strip (str_lower (ascii '' KG '')) = ascii ''kg''"
    "str_strip (str_lower (ascii ''100G'')) = ascii ''100g''"
    by (simp_all add: str_eval)
  have h4: "(0 :: rat) < 5 / 2" "(5 / 2 :: rat) * 10 < dbl_limit"
    by (simp_all add: dbl_limit_def)
  have h5: "str_strip (str_lower (ascii ''100 g'')) \<noteq> ascii ''kg''"
    "str_strip (str_lower (ascii ''100 g'')) \<noteq> ascii ''100g''"
    by (simp_all add: str_eval)
  have c1: "calculer_prix_au_kg_direct (Finite (- 1)) (ascii ''kg'') = Finite 0"
    using direct_normalizer_contract [of "Finite (- 1)" "ascii ''kg''" 1] h1 by simp
  have c2: "calculer_prix_au_kg_direct (Finite (41 / 2)) (ascii '' KG '') = Finite (41 / 2)"
    using direct_normalizer_contract [of "Finite (41 / 2)" "ascii '' KG ''" 1] h2(1) h3(1) by simp
  have c3: "calculer_prix_au_kg_direct PInf (ascii ''100G'') = fmul PInf (Finite 10)"
    using direct_normalizer_contract [of PInf "ascii ''100G''" 1] h2(2) h3(2) by simp
  have c4: "calculer_prix_au_kg_direct (Finite (5 / 2)) (ascii ''100G'') = Finite (5 / 2 * 10)"
    using direct_normalizer_contract [of PInf "ascii ''100G''" "5 / 2"] h4 h3(2) by simp
  have c5: "calculer_prix_au_kg_direct (Finite 3) (ascii ''100 g'') = Finite 0"
    using direct_normalizer_contract [of "Finite 3" "ascii ''100 g''" 1] h5 by simp
  show ?thesis
    by (intro conjI; fact)
qed

section \<open>The Currency Parser\<close>

lemma py_float_error: "py_float s = Inl e \<Longrightarrow> e = ValueError"
  by (auto simp: py_float_def Let_def split: if_splits prod.splits option.splits)



lemma dropWhile_hd: "ys \<noteq> [] \<Longrightarrow> \<not> P (hd ys) \<Longrightarrow> dropWhile P ys = ys"
  by (cases ys) auto

lemma strip_id:
  assumes "t \<noteq> []" "\<not> P (hd t)" "\<not> P (last t)"
  shows "rev (dropWhile P (rev (dropWhile P t))) = t"
proof -
  have "dropWhile P t = t"
    using assms(1,2) by (rule dropWhile_hd)
  moreover have "dropWhile P (rev t) = rev t"
    using assms(1,3) by (intro dropWhile_hd) (simp_all add: hd_rev)
  ultimately show ?thesis by simp
qed

lemma underscores_ok_none: "95 \<notin> set t \<Longrightarrow> underscores_ok b t"
  by (induction t arbitrary: b) auto

lemma digits_val_foldl:
  "foldl (\<lambda>a c. 10 * a + digit_of c) acc b =
     acc * 10 ^ length b + foldl (\<lambda>a c. 10 * a + digit_of c) 0 b"
proof (induction b arbitrary: acc)
  case Nil
  then show ?case by simp
next
  case (Cons x b)
  have 1: "foldl (\<lambda>a c. 10 * a + digit_of c) (10 * acc + digit_of x) b =
      (10 * acc + digit_of x) * 10 ^ length b + foldl (\<lambda>a c. 10 * a + digit_of c) 0 b"
    by (rule Cons.IH)
  have 2: "foldl (\<lambda>a c. 10 * a + digit_of c) (digit_of x) b =
      digit_of x * 10 ^ length b + foldl (\<lambda>a c. 10 * a + digit_of c) 0 b"
    by (rule Cons.IH)
  show ?case
    using 1 2 by (simp add: algebra_simps)
qed

lemma digits_val_append: "digits_val (a @ b) = digits_val a * 10 ^ length b + digits_val b"
  by (simp add: digits_val_def digits_val_foldl [of "foldl _ _ a"])






lemma digit_of_nonneg: "0 \<le> digit_of c"
proof (cases "find (\<lambda>z. z \<le> c \<and> c \<le> z + 9) decimal_zeros")
  case None
  then show ?thesis by (simp add: digit_of_def todecimal_def)
next
  case (Some z)
  then have "z \<le> c" by (auto simp: find_Some_iff)
  with Some show ?thesis by (simp add: digit_of_def todecimal_def)
qed

lemma foldl_digits_nonneg: "0 \<le> acc \<Longrightarrow> 0 \<le> foldl (\<lambda>a c. 10 * a + digit_of c) acc ds"
proof (induction ds arbitrary: acc)
  case Nil
  then show ?case by simp
next
  case (Cons x ds)
  have "0 \<le> 10 * acc + digit_of x"
    using Cons.prems digit_of_nonneg [of x] by simp
  then show ?case
    using Cons.IH by simp
qed

lemma digits_val_nonneg: "0 \<le> digits_val ds"
  by (simp add: digits_val_def foldl_digits_nonneg)


lemma dbl_limit_pos: "0 < dbl_limit"
  by (simp add: dbl_limit_def)






lemma nettoyer_prix_total_total: "\<exists>v. nettoyer_prix_total s = Inr v"
  by (auto simp: nettoyer_prix_total_def split: sum.splits dest: py_float_error)




text \<open>
  Claim C6. \<open>_nettoyer_prix_total\<close> returns for every string (the only exception \<open>float\<close>
  raises on a string is \<open>ValueError\<close>, which the \<open>try\<close> catches), and it returns 0.0 when
  the string is empty, when it is the sentinel \<open>N/A\<close>, and when \<open>float\<close> refuses the
  normalised text \<open>prix_net\<close>.
\<close>

theorem currency_parser_total:
  "(\<exists>v. nettoyer_prix_total s = Inr v) \<and>
   (s = [] \<or> s = ascii ''N/A'' \<or> (\<exists>e. py_float (prix_net s) = Inl e)
      \<longrightarrow> nettoyer_prix_total s = Inr (Finite 0))"
proof -
  have "nettoyer_prix_total s = Inr (Finite 0)" if "py_float (prix_net s) = Inl e" for e
    using that py_float_error [OF that] by (simp add: nettoyer_prix_total_def)
  then show ?thesis
    using nettoyer_prix_total_total [of s] by (auto simp: nettoyer_prix_total_def)
qed

theorem currency_parser_total_witness:
  "nettoyer_prix_total [] = Inr (Finite 0) \<and>
   nettoyer_prix_total (ascii ''N/A'') = Inr (Finite 0) \<and>
   (\<exists>e. py_float (prix_net (ascii ''12,5,0 '' @ [euro])) = Inl e) \<and>
   nettoyer_prix_total (ascii ''12,5,0 '' @ [euro]) = Inr (Finite 0)"
proof -
  have bad: "py_float (prix_net (ascii ''12,5,0 '' @ [euro])) = Inl ValueError"
    by (simp add: str_eval num_eval)
  then have h: "\<exists>e. py_float (prix_net (ascii ''12,5,0 '' @ [euro])) = Inl e"
    by blast
  have c1: "nettoyer_prix_total [] = Inr (Finite 0)"
    using currency_parser_total [of "[]"] by simp
  have c2: "nettoyer_prix_total (ascii ''N/A'') = Inr (Finite 0)"
    using currency_parser_total [of "ascii ''N/A''"] by simp
  have c3: "nettoyer_prix_total (ascii ''12,5,0 '' @ [euro]) = Inr (Finite 0)"
    using currency_parser_total [of "ascii ''12,5,0 '' @ [euro]"] h by blast
  show ?thesis
    by (intro conjI; fact)
qed




section \<open>The Ranking Filter\<close>

lemma flt_fle: "flt a b \<Longrightarrow> fle a b"
  by (auto simp: flt_def fle_def split: pyfloat.splits)

lemma not_flt_fle: "a \<noteq> NaN \<Longrightarrow> b \<noteq> NaN \<Longrightarrow> \<not> flt a b \<Longrightarrow> fle b a"
  by (auto simp: flt_def fle_def split: pyfloat.splits)

lemma fle_trans: "fle a b \<Longrightarrow> fle b c \<Longrightarrow> fle a c"
  by (auto simp: fle_def split: pyfloat.splits)

lemma flt_neq: "flt a b \<Longrightarrow> a \<noteq> b"
  by (auto simp: flt_def split: pyfloat.splits)

lemma fgt_not_NaN: "fgt a b \<Longrightarrow> a \<noteq> NaN"
  by (auto simp: fgt_def flt_def split: pyfloat.splits)

lemma mset_insert_sorted: "mset (insert_sorted k x ys) = add_mset x (mset ys)"
  by (induction ys) auto

lemma mset_py_sorted: "mset (py_sorted k xs) = mset xs"
  by (induction xs) (simp_all add: py_sorted_def mset_insert_sorted)

lemma set_insert_sorted: "set (insert_sorted k x ys) = insert x (set ys)"
  using mset_insert_sorted [of k x ys] by (metis set_mset_add_mset_insert set_mset_mset)

lemma set_py_sorted: "set (py_sorted k xs) = set xs"
  using mset_py_sorted [of k xs] by (metis set_mset_mset)

lemma sorted_insert_sorted:
  assumes "sorted_wrt (\<lambda>a b. fle (k a) (k b)) ys" "k x \<noteq> NaN" "\<forall>y\<in>set ys. k y \<noteq> NaN"
  shows "sorted_wrt (\<lambda>a b. fle (k a) (k b)) (insert_sorted k x ys)"
  using assms
proof (induction ys)
  case Nil
  then show ?case by simp
next
  case (Cons y ys)
  show ?case
  proof (cases "flt (k y) (k x)")
    case True
    then have "fle (k y) (k x)" by (rule flt_fle)
    with True Cons show ?thesis
      by (auto simp: set_insert_sorted)
  next
    case False
    then have xy: "fle (k x) (k y)"
      using Cons.prems by (intro not_flt_fle) auto
    have "fle (k x) (k z)" if "z \<in> set ys" for z
      using xy Cons.prems(1) that fle_trans by auto
    with False xy Cons.prems(1) show ?thesis
      by auto
  qed
qed

lemma sorted_py_sorted:
  "\<forall>x\<in>set xs. k x \<noteq> NaN \<Longrightarrow> sorted_wrt (\<lambda>a b. fle (k a) (k b)) (py_sorted k xs)"
proof (induction xs)
  case Nil
  then show ?case by (simp add: py_sorted_def)
next
  case (Cons x xs)
  have "sorted_wrt (\<lambda>a b. fle (k a) (k b)) (insert_sorted k x (py_sorted k xs))"
    using Cons by (intro sorted_insert_sorted) (auto simp: set_py_sorted)
  then show ?case
    by (simp add: py_sorted_def)
qed

lemma filter_insert_sorted:
  "filter (\<lambda>z. k z = v) (insert_sorted k x ys) = filter (\<lambda>z. k z = v) (x # ys)"
proof (induction ys)
  case Nil
  then show ?case by simp
next
  case (Cons y ys)
  show ?case
  proof (cases "flt (k y) (k x)")
    case True
    then have "k y \<noteq> k x" by (rule flt_neq)
    with True Cons.IH show ?thesis by auto
  next
    case False
    then show ?thesis by simp
  qed
qed

lemma filter_py_sorted: "filter (\<lambda>z. k z = v) (py_sorted k xs) = filter (\<lambda>z. k z = v) xs"
proof (induction xs)
  case Nil
  then show ?case by (simp add: py_sorted_def)
next
  case (Cons x xs)
  have "filter (\<lambda>z. k z = v) (py_sorted k (x # xs)) =
        filter (\<lambda>z. k z = v) (x # py_sorted k xs)"
    by (simp add: py_sorted_def filter_insert_sorted del: filter.simps)
  then show ?case
    using Cons.IH by simp
qed

lemma listing_inv_positive:
  "listing_inv p \<Longrightarrow> fgt (prix_unitaire_kg p) (Finite 0) \<longleftrightarrow> prix_unitaire_kg p \<noteq> Finite 0"
  by (auto simp: listing_inv_def fgt_def flt_def)

lemma sources_distinct:
  "source_direct \<noteq> source_defaut" "source_format \<noteq> source_defaut"
  by (simp_all add: source_direct_def source_format_def source_defaut_def ascii_def)

lemmas store_eval =
  nettoyer_et_trier_resultats_def py_sorted_def store_exemple_def listing_exemple_def
  fgt_def flt_def fle_def listing_inv_def sources_distinct

lemma store_exemple_inv: "\<forall>r\<in>set [0, 1, 2, 3, 4]. listing_inv (store_exemple ! r)"
  by (simp add: store_eval)

lemma store_exemple_tri:
  "snd (nettoyer_et_trier_resultats store_exemple [0, 1, 2, 3, 4]) = [3, 4, 1]"
  by (simp add: store_eval)

text \<open>
  Claim C3. On a list of resolved listings (each satisfies the invariant of the data
  model) \<open>nettoyer_et_trier_resultats\<close> returns exactly the listings whose price per
  kilogram is not 0, in ascending order of that price, and the listings of equal price
  keep the order of the input. On the prices 0.0, 12.5, 0.0, 8.0, 8.0 the result is the
  fourth, the fifth and the second listing: 8.0, 8.0, 12.5.
\<close>

theorem ranking_filter_contract:
  "((\<forall>r\<in>set rs. listing_inv (h ! r)) \<longrightarrow>
      mset (snd (nettoyer_et_trier_resultats h rs)) =
        mset (filter (\<lambda>r. prix_unitaire_kg (h ! r) \<noteq> Finite 0) rs) \<and>
      sorted_wrt (\<lambda>a b. fle (prix_unitaire_kg (h ! a)) (prix_unitaire_kg (h ! b)))
        (snd (nettoyer_et_trier_resultats h rs)) \<and>
      (\<forall>v. filter (\<lambda>r. prix_unitaire_kg (h ! r) = v) (snd (nettoyer_et_trier_resultats h rs)) =
           filter (\<lambda>r. prix_unitaire_kg (h ! r) = v)
             (filter (\<lambda>r. prix_unitaire_kg (h ! r) \<noteq> Finite 0) rs))) \<and>
   snd (nettoyer_et_trier_resultats store_exemple [0, 1, 2, 3, 4]) = [3, 4, 1] \<and>
   map (\<lambda>r. prix_unitaire_kg (store_exemple ! r)) [0, 1, 2, 3, 4] =
     [Finite 0, Finite (25 / 2), Finite 0, Finite 8, Finite 8] \<and>
   map (\<lambda>r. prix_unitaire_kg (store_exemple ! r)) [3, 4, 1] =
     [Finite 8, Finite 8, Finite (25 / 2)]"
proof -
  let ?k = "\<lambda>r. prix_unitaire_kg (h ! r)"
  have general: "mset (snd (nettoyer_et_trier_resultats h rs)) =
        mset (filter (\<lambda>r. ?k r \<noteq> Finite 0) rs) \<and>
      sorted_wrt (\<lambda>a b. fle (?k a) (?k b)) (snd (nettoyer_et_trier_resultats h rs)) \<and>
      (\<forall>v. filter (\<lambda>r. ?k r = v) (snd (nettoyer_et_trier_resultats h rs)) =
           filter (\<lambda>r. ?k r = v) (filter (\<lambda>r. ?k r \<noteq> Finite 0) rs))"
    if inv: "\<forall>r\<in>set rs. listing_inv (h ! r)"
  proof -
    have same: "filter (\<lambda>r. fgt (?k r) (Finite 0)) rs = filter (\<lambda>r. ?k r \<noteq> Finite 0) rs"
      by (rule filter_cong) (use inv listing_inv_positive in auto)
    have out: "snd (nettoyer_et_trier_resultats h rs) =
        py_sorted ?k (filter (\<lambda>r. ?k r \<noteq> Finite 0) rs)"
      by (simp add: nettoyer_et_trier_resultats_def same)
    have no_nan: "\<forall>r\<in>set (filter (\<lambda>r. fgt (?k r) (Finite 0)) rs). ?k r \<noteq> NaN"
      using fgt_not_NaN by auto
    then have "sorted_wrt (\<lambda>a b. fle (?k a) (?k b))
        (py_sorted ?k (filter (\<lambda>r. fgt (?k r) (Finite 0)) rs))"
      by (rule sorted_py_sorted)
    then show ?thesis
      unfolding out by (simp add: same mset_py_sorted filter_py_sorted)
  qed
  have ex2: "map (\<lambda>r. prix_unitaire_kg (store_exemple ! r)) [0, 1, 2, 3, 4] =
     [Finite 0, Finite (25 / 2), Finite 0, Finite 8, Finite 8]"
    by (simp add: store_eval)
  have ex3: "map (\<lambda>r. prix_unitaire_kg (store_exemple ! r)) [3, 4, 1] =
     [Finite 8, Finite 8, Finite (25 / 2)]"
    by (simp add: store_eval)
  show ?thesis
    using general store_exemple_tri ex2 ex3 by blast
qed

theorem ranking_filter_contract_witness:
  "list_all (\<lambda>r. listing_inv (store_exemple ! r)) [0, 1, 2, 3, 4] \<and>
   mset (snd (nettoyer_et_trier_resultats store_exemple [0, 1, 2, 3, 4])) =
     mset (filter (\<lambda>r. prix_unitaire_kg (store_exemple ! r) \<noteq> Finite 0) [0, 1, 2, 3, 4]) \<and>
   sorted_wrt (\<lambda>a b. fle (prix_unitaire_kg (store_exemple ! a)) (prix_unitaire_kg (store_exemple ! b)))
     (snd (nettoyer_et_trier_resultats store_exemple [0, 1, 2, 3, 4]))"
proof -
  have h: "list_all (\<lambda>r. listing_inv (store_exemple ! r)) [0, 1, 2, 3, 4]"
    using store_exemple_inv by (simp only: list_all_iff)
  have c: "mset (snd (nettoyer_et_trier_resultats store_exemple [0, 1, 2, 3, 4])) =
     mset (filter (\<lambda>r. prix_unitaire_kg (store_exemple ! r) \<noteq> Finite 0) [0, 1, 2, 3, 4]) \<and>
   sorted_wrt (\<lambda>a b. fle (prix_unitaire_kg (store_exemple ! a)) (prix_unitaire_kg (store_exemple ! b)))
     (snd (nettoyer_et_trier_resultats store_exemple [0, 1, 2, 3, 4]))"
    using ranking_filter_contract [of "[0, 1, 2, 3, 4]" store_exemple] store_exemple_inv
    by blast
  from h c show ?thesis
    by (rule conjI)
qed

text \<open>
  Claim C10. \<open>nettoyer_et_trier_resultats\<close> leaves the store as it is, so no listing, kept
  or dropped, has a field changed; its result is made of references of its argument, and
  holds exactly those whose listing has a price per kilogram \<open>> 0\<close>, each as often as the
  argument does.
\<close>

theorem ranking_filter_frame:
  "fst (nettoyer_et_trier_resultats h rs) = h \<and>
   mset (snd (nettoyer_et_trier_resultats h rs)) =
     mset (filter (\<lambda>r. fgt (prix_unitaire_kg (h ! r)) (Finite 0)) rs) \<and>
   set (snd (nettoyer_et_trier_resultats h rs)) \<subseteq> set rs"
proof -
  have m: "mset (snd (nettoyer_et_trier_resultats h rs)) =
     mset (filter (\<lambda>r. fgt (prix_unitaire_kg (h ! r)) (Finite 0)) rs)"
    by (simp add: nettoyer_et_trier_resultats_def mset_py_sorted)
  have "set (snd (nettoyer_et_trier_resultats h rs)) \<subseteq> set rs"
    by (auto simp: nettoyer_et_trier_resultats_def set_py_sorted)
  with m show ?thesis
    by (simp add: nettoyer_et_trier_resultats_def)
qed

theorem ranking_filter_frame_witness:
  "fst (nettoyer_et_trier_resultats store_exemple [0, 1, 2, 3, 4]) = store_exemple \<and>
   set (snd (nettoyer_et_trier_resultats store_exemple [0, 1, 2, 3, 4])) \<subseteq> set [0, 1, 2, 3, 4]"
  using ranking_filter_frame [of store_exemple "[0, 1, 2, 3, 4]"] by blast

section \<open>Matches of the two patterns\<close>

lemma star_rests_iff: "r \<in> set (star_rests p s) \<longleftrightarrow> (\<exists>w. s = w @ r \<and> (\<forall>c\<in>set w. p c))"
proof (induction s)
  case Nil
  then show ?case by auto
next
  case (Cons x xs)
  show ?case
  proof
    assume "r \<in> set (star_rests p (x # xs))"
    then consider "p x" "r \<in> set (star_rests p xs)" | "r = x # xs"
      by (auto split: if_splits)
    then show "\<exists>w. x # xs = w @ r \<and> (\<forall>c\<in>set w. p c)"
    proof cases
      case 1
      then obtain w where "xs = w @ r" "\<forall>c\<in>set w. p c"
        using Cons.IH by auto
      with 1 show ?thesis
        by (intro exI [of _ "x # w"]) simp
    next
      case 2
      then show ?thesis by (intro exI [of _ "[]"]) simp
    qed
  next
    assume "\<exists>w. x # xs = w @ r \<and> (\<forall>c\<in>set w. p c)"
    then obtain w where w: "x # xs = w @ r" "\<forall>c\<in>set w. p c" by blast
    show "r \<in> set (star_rests p (x # xs))"
    proof (cases w)
      case Nil
      with w have "r = x # xs" by simp
      then show ?thesis by simp
    next
      case (Cons y ys)
      with w have "p x" "xs = ys @ r" "\<forall>c\<in>set ys. p c" by auto
      then show ?thesis
        using Cons.IH by auto
    qed
  qed
qed

lemma re_search_Some:
  "re_search re s = Some g \<Longrightarrow> \<exists>pre s' r tl. s = pre @ s' \<and> rmatch re s' Map.empty = (r, g) # tl"
proof (induction s)
  case Nil
  then show ?case by (auto split: list.splits)
next
  case (Cons x xs)
  show ?case
  proof (cases "rmatch re (x # xs) Map.empty")
    case Nil
    with Cons.prems have "re_search re xs = Some g" by simp
    then obtain pre s' r tl where "xs = pre @ s'" "rmatch re s' Map.empty = (r, g) # tl"
      using Cons.IH by blast
    then have "x # xs = (x # pre) @ s'" "rmatch re s' Map.empty = (r, g) # tl"
      by simp_all
    then show ?thesis
      by blast
  next
    case (Cons a list)
    with Cons.prems obtain r where "rmatch re (x # xs) Map.empty = (r, g) # list"
      by (cases a) auto
    then have "x # xs = [] @ (x # xs)" "rmatch re (x # xs) Map.empty = (r, g) # list"
      by simp_all
    then show ?thesis
      by blast
  qed
qed

lemma re_search_None:
  "re_search re s = None \<longleftrightarrow> (\<forall>pre s'. s = pre @ s' \<longrightarrow> rmatch re s' Map.empty = [])"
proof (induction s)
  case Nil
  then show ?case by (auto split: list.splits)
next
  case (Cons x xs)
  show ?case
  proof (cases "rmatch re (x # xs) Map.empty")
    case Nil
    have "(\<forall>pre s'. x # xs = pre @ s' \<longrightarrow> rmatch re s' Map.empty = []) \<longleftrightarrow>
          (\<forall>pre s'. xs = pre @ s' \<longrightarrow> rmatch re s' Map.empty = [])"
      using Nil by (auto simp: Cons_eq_append_conv)
    with Nil Cons.IH show ?thesis by simp
  next
    case (Cons a list)
    then have "re_search re (x # xs) \<noteq> None"
      by (cases a) auto
    moreover have "x # xs = [] @ (x # xs)" by simp
    ultimately show ?thesis
      using Cons by (metis list.distinct(1))
  qed
qed

lemma in_rmatch_Cls:
  "(r, g) \<in> set (rmatch (Cls p) s g0) \<longleftrightarrow> (\<exists>x. s = x # r \<and> p x) \<and> g = g0"
  by (cases s) auto

lemma in_rmatch_Star:
  "(r, g) \<in> set (rmatch (Star p) s g0) \<longleftrightarrow> (\<exists>w. s = w @ r \<and> (\<forall>c\<in>set w. p c)) \<and> g = g0"
  by (auto simp: star_rests_iff)

lemma in_rmatch_Plus:
  "(r, g) \<in> set (rmatch (Plus p) s g0) \<longleftrightarrow>
     (\<exists>w. w \<noteq> [] \<and> s = w @ r \<and> (\<forall>c\<in>set w. p c)) \<and> g = g0"
proof (cases s)
  case Nil
  then show ?thesis by auto
next
  case (Cons x xs)
  show ?thesis
  proof
    assume "(r, g) \<in> set (rmatch (Plus p) s g0)"
    with Cons obtain w where "p x" "xs = w @ r" "\<forall>c\<in>set w. p c" "g = g0"
      by (auto simp: star_rests_iff split: if_splits)
    with Cons have "x # w \<noteq> [] \<and> s = (x # w) @ r \<and> (\<forall>c\<in>set (x # w). p c)"
      by simp
    with \<open>g = g0\<close> show "(\<exists>w. w \<noteq> [] \<and> s = w @ r \<and> (\<forall>c\<in>set w. p c)) \<and> g = g0"
      by blast
  next
    assume "(\<exists>w. w \<noteq> [] \<and> s = w @ r \<and> (\<forall>c\<in>set w. p c)) \<and> g = g0"
    then obtain w where w: "w \<noteq> []" "s = w @ r" "\<forall>c\<in>set w. p c" "g = g0"
      by blast
    then obtain y ys where "w = y # ys" by (cases w) auto
    with w Cons have "p x" "xs = ys @ r" "\<forall>c\<in>set ys. p c"
      by auto
    with Cons \<open>g = g0\<close> show "(r, g) \<in> set (rmatch (Plus p) s g0)"
      by (auto simp: star_rests_iff)
  qed
qed

lemma in_rmatch_Seq:
  "(r, g) \<in> set (rmatch (Seq a b) s g0) \<longleftrightarrow>
     (\<exists>r1 g1. (r1, g1) \<in> set (rmatch a s g0) \<and> (r, g) \<in> set (rmatch b r1 g1))"
  by auto

lemma in_rmatch_Alt:
  "(r, g) \<in> set (rmatch (Alt a b) s g0) \<longleftrightarrow>
     (r, g) \<in> set (rmatch a s g0) \<or> (r, g) \<in> set (rmatch b s g0)"
  by auto

lemma in_rmatch_Opt:
  "(r, g) \<in> set (rmatch (Opt a) s g0) \<longleftrightarrow> (r, g) \<in> set (rmatch a s g0) \<or> (r = s \<and> g = g0)"
  by auto

lemma in_rmatch_Grp:
  "(r, g) \<in> set (rmatch (Grp n a) s g0) \<longleftrightarrow>
     (\<exists>g1. (r, g1) \<in> set (rmatch a s g0) \<and> g = g1(n \<mapsto> take (length s - length r) s))"
  by auto

lemmas in_rmatch =
  in_rmatch_Cls in_rmatch_Star in_rmatch_Plus in_rmatch_Seq in_rmatch_Alt in_rmatch_Opt
  in_rmatch_Grp

lemma in_pack_re1:
  "(r, g) \<in> set (rmatch pack_re s Map.empty) \<Longrightarrow>
     (\<exists>d1 w1 x w2 d2 w3 y.
        s = d1 @ w1 @ x # w2 @ d2 @ w3 @ y # r \<and> g = [1 \<mapsto> d1, 2 \<mapsto> d2] \<and>
        d1 \<noteq> [] \<and> (\<forall>c\<in>set d1. isdecimal c) \<and> (\<forall>c\<in>set w1. isspace c) \<and> tolower x = 120 \<and>
        (\<forall>c\<in>set w2. isspace c) \<and> d2 \<noteq> [] \<and> (\<forall>c\<in>set d2. isdecimal c) \<and>
        (\<forall>c\<in>set w3. isspace c) \<and> tolower y = 103)"
  apply (clarsimp simp: pack_re_def lit_i_def in_rmatch simp del: rmatch.simps)
  apply (intro exI conjI)
            apply (rule refl)
           apply (rule refl)
          apply assumption+
  done

lemma in_pack_re2:
  assumes "d1 \<noteq> []" "\<forall>c\<in>set d1. isdecimal c" "\<forall>c\<in>set w1. isspace c" "tolower x = 120"
        "\<forall>c\<in>set w2. isspace c" "d2 \<noteq> []" "\<forall>c\<in>set d2. isdecimal c"
        "\<forall>c\<in>set w3. isspace c" "tolower y = 103"
  shows "(r, [1 \<mapsto> d1, 2 \<mapsto> d2]) \<in> set (rmatch pack_re (d1 @ w1 @ x # w2 @ d2 @ w3 @ y # r) Map.empty)"
  unfolding pack_re_def lit_i_def in_rmatch
  apply (rule exI [of _ "w1 @ x # w2 @ d2 @ w3 @ y # r"])
  apply (rule exI [of _ "[1 \<mapsto> d1]"])
  apply (rule conjI)
   apply (use assms in simp)
  apply (rule exI [of _ "x # w2 @ d2 @ w3 @ y # r"])
  apply (rule exI [of _ "[1 \<mapsto> d1]"])
  apply (rule conjI)
   apply (use assms in simp)
  apply (rule exI [of _ "w2 @ d2 @ w3 @ y # r"])
  apply (rule exI [of _ "[1 \<mapsto> d1]"])
  apply (rule conjI)
   apply (use assms in simp)
  apply (rule exI [of _ "d2 @ w3 @ y # r"])
  apply (rule exI [of _ "[1 \<mapsto> d1]"])
  apply (rule conjI)
   apply (use assms in simp)
  apply (rule exI [of _ "w3 @ y # r"])
  apply (rule exI [of _ "[1 \<mapsto> d1, 2 \<mapsto> d2]"])
  apply (rule conjI)
   apply (use assms in simp)
  apply (rule exI [of _ "y # r"])
  apply (rule exI [of _ "[1 \<mapsto> d1, 2 \<mapsto> d2]"])
  apply (use assms in simp)
  done





lemma isdecimal_ge: "isdecimal c \<Longrightarrow> (48 \<le> c \<and> c \<le> 57) \<or> 1632 \<le> c"
  using isdecimal_low [of c] by auto

lemma isdecimal_iff: "isdecimal c \<longleftrightarrow> (\<exists>z\<in>set decimal_zeros. z \<le> c \<and> c \<le> z + 9)"
  by (auto simp: isdecimal_def todecimal_def find_None_iff)

lemma isspace_not_decimal: "isspace c \<Longrightarrow> \<not> isdecimal c"
proof (cases "c < 1632")
  case True
  assume "isspace c"
  with True show ?thesis
    unfolding isdecimal_low [OF True] isspace_def by linarith
next
  case False
  assume "isspace c"
  with False consider "c = 5760" | "8192 \<le> c \<and> c \<le> 8202" | "8232 \<le> c \<and> c \<le> 8239"
    | "c = 8287" | "c = 12288"
    unfolding isspace_def by linarith
  then show ?thesis
    by cases (simp_all add: isdecimal_iff decimal_zeros_def)
qed

lemma num_space_isspace: "num_space c \<Longrightarrow> isspace c"
  unfolding num_space_def isspace_def by linarith

lemma tolower_letter: "tolower c = 120 \<or> tolower c = 103 \<Longrightarrow> c = 120 \<or> c = 88 \<or> c = 103 \<or> c = 71"
  unfolding tolower_def ascii_lower_def by (auto split: if_splits)

lemma isdecimal_not_special:
  assumes "isdecimal c"
  shows "\<not> isspace c" "\<not> num_space c" "c \<noteq> 95" "c \<noteq> 45" "c \<noteq> 43" "c \<noteq> 46"
    "tolower c \<noteq> 120" "tolower c \<noteq> 103"
proof -
  show "\<not> isspace c"
    using assms isspace_not_decimal by blast
  then show "\<not> num_space c"
    using num_space_isspace by blast
  have r: "(48 \<le> c \<and> c \<le> 57) \<or> 1632 \<le> c"
    using assms by (rule isdecimal_ge)
  then show "c \<noteq> 95" "c \<noteq> 45" "c \<noteq> 43" "c \<noteq> 46"
    by linarith+
  show "tolower c \<noteq> 120" "tolower c \<noteq> 103"
    using r tolower_letter [of c] by linarith+
qed

lemma letter_not_special:
  assumes "tolower c = 120 \<or> tolower c = 103"
  shows "\<not> isspace c" "\<not> isdecimal c"
  using tolower_letter [OF assms] by (auto simp: isspace_def isdecimal_low)

lemma re_first_iff: "re_first re s g res \<longleftrightarrow> (\<exists>tl. rmatch re s g = res # tl)"
  by (auto simp: re_first_def split: list.splits)

lemma star_rests_greedy:
  "\<forall>c\<in>set w. p c \<Longrightarrow> r = [] \<or> \<not> p (hd r) \<Longrightarrow> \<exists>tl. star_rests p (w @ r) = r # tl"
proof (induction w)
  case Nil
  then show ?case by (cases r) auto
next
  case (Cons x w)
  then obtain tl where "star_rests p (w @ r) = r # tl" by auto
  with Cons.prems show ?case by simp
qed

lemma first_Cls: "p x \<Longrightarrow> re_first (Cls p) (x # r) g (r, g)"
  by (simp add: re_first_def)

lemma first_Star:
  "\<forall>c\<in>set w. p c \<Longrightarrow> r = [] \<or> \<not> p (hd r) \<Longrightarrow> re_first (Star p) (w @ r) g (r, g)"
  using star_rests_greedy [of w p r] by (auto simp: re_first_iff)

lemma first_Plus:
  assumes "w \<noteq> []" "\<forall>c\<in>set w. p c" "r = [] \<or> \<not> p (hd r)"
  shows "re_first (Plus p) (w @ r) g (r, g)"
proof -
  obtain x xs where w: "w = x # xs" using assms(1) by (cases w) auto
  then obtain tl where "star_rests p (xs @ r) = r # tl"
    using star_rests_greedy [of xs p r] assms(2,3) by auto
  with w assms(2) show ?thesis
    by (simp add: re_first_iff)
qed

lemma first_Seq:
  "re_first a s g (r1, g1) \<Longrightarrow> re_first b r1 g1 res \<Longrightarrow> re_first (Seq a b) s g res"
  by (auto simp: re_first_iff)

lemma first_Grp:
  "re_first a (w @ r) g (r, g1) \<Longrightarrow> re_first (Grp n a) (w @ r) g (r, g1(n \<mapsto> w))"
  by (auto simp: re_first_iff)

lemma hd_sep: "\<forall>c\<in>set w. \<not> P c \<Longrightarrow> \<not> P x \<Longrightarrow> \<not> P (hd (w @ x # r))"
  by (cases w) auto

lemma pack_re_first:
  assumes d1: "d1 \<noteq> []" "\<forall>c\<in>set d1. isdecimal c" and w1: "\<forall>c\<in>set w1. isspace c"
    and x: "tolower x = 120" and w2: "\<forall>c\<in>set w2. isspace c"
    and d2: "d2 \<noteq> []" "\<forall>c\<in>set d2. isdecimal c" and w3: "\<forall>c\<in>set w3. isspace c"
    and y: "tolower y = 103"
  shows "re_first pack_re (d1 @ w1 @ x # w2 @ d2 @ w3 @ y # r) Map.empty (r, [1 \<mapsto> d1, 2 \<mapsto> d2])"
proof -
  have nx: "\<not> isspace x" "\<not> isdecimal x" and ny: "\<not> isspace y" "\<not> isdecimal y"
    using x y letter_not_special by blast+
  have nd: "\<forall>c\<in>set w1. \<not> isdecimal c" "\<forall>c\<in>set w3. \<not> isdecimal c"
    using w1 w3 isspace_not_decimal by blast+
  have ns: "\<not> isspace (hd (d2 @ w3 @ y # r))"
    using d2 isdecimal_not_special(1) by (cases d2) auto
  have h3: "\<not> isdecimal (hd (w3 @ y # r))" and h1: "\<not> isdecimal (hd (w1 @ x # w2 @ d2 @ w3 @ y # r))"
    using hd_sep [of w3 isdecimal y r] hd_sep [of w1 isdecimal x "w2 @ d2 @ w3 @ y # r"] nd nx ny
    by blast+
  have s3: "\<not> isspace (hd (y # r))" and s1: "\<not> isspace (hd (x # w2 @ d2 @ w3 @ y # r))"
    using nx ny by simp_all
  have 7: "re_first (lit_i 103) (y # r) g (r, g)" for g
    unfolding lit_i_def using y by (rule first_Cls)
  have 6: "re_first (Star isspace) (w3 @ y # r) g (y # r, g)" for g
    using w3 s3 by (intro first_Star disjI2)
  have 5: "re_first (Grp 2 (Plus isdecimal)) (d2 @ w3 @ y # r) g (w3 @ y # r, g(2 \<mapsto> d2))" for g
    using d2 h3 by (intro first_Grp first_Plus disjI2)
  have 4: "re_first (Star isspace) (w2 @ d2 @ w3 @ y # r) g (d2 @ w3 @ y # r, g)" for g
    using w2 ns by (intro first_Star disjI2)
  have 3: "re_first (lit_i 120) (x # w2 @ d2 @ w3 @ y # r) g (w2 @ d2 @ w3 @ y # r, g)" for g
    unfolding lit_i_def using x by (rule first_Cls)
  have 2: "re_first (Star isspace) (w1 @ x # w2 @ d2 @ w3 @ y # r) g (x # w2 @ d2 @ w3 @ y # r, g)" for g
    using w1 s1 by (intro first_Star disjI2)
  have 1: "re_first (Grp 1 (Plus isdecimal)) (d1 @ w1 @ x # w2 @ d2 @ w3 @ y # r) g
      (w1 @ x # w2 @ d2 @ w3 @ y # r, g(1 \<mapsto> d1))" for g
    using d1 h1 by (intro first_Grp first_Plus disjI2)
  show ?thesis
    unfolding pack_re_def
    by (intro first_Seq [OF 1] first_Seq [OF 2] first_Seq [OF 3] first_Seq [OF 4]
        first_Seq [OF 5] first_Seq [OF 6] 7)
qed

lemma re_search_first: "re_first re s Map.empty (r, g) \<Longrightarrow> re_search re s = Some g"
  by (cases s) (auto simp: re_first_iff)

lemma py_int_digits:
  assumes "ds \<noteq> []" "\<forall>c\<in>set ds. isdecimal c"
  shows "py_int ds = (if 4300 < int (length ds) then Inl ValueError else Inr (digits_val ds))"
proof -
  have hd: "isdecimal (hd ds)" and last: "isdecimal (last ds)"
    using assms by auto
  have strip: "num_strip ds = ds"
    unfolding num_strip_def
    by (rule strip_id) (use assms(1) hd last isdecimal_not_special(2) in auto)
  have sign: "split_sign ds = (False, ds)"
    using assms(1) isdecimal_not_special(4,5) [OF hd] by (cases ds) (auto simp: split_sign_def)
  have no_us: "95 \<notin> set ds"
    using assms(2) isdecimal_not_special(3) by blast
  then have filt: "filter (\<lambda>c. c \<noteq> 95) ds = ds"
    by (intro filter_True) auto
  have all: "list_all isdecimal ds"
    using assms(2) by (simp add: list_all_iff)
  show ?thesis
    unfolding py_int_def strip sign Let_def prod.case filt
    using assms(1) all underscores_ok_none [OF no_us] by simp
qed

lemma digits_val_Cons: "digits_val (d # ds) = digit_of d * 10 ^ length ds + digits_val ds"
  using digits_val_append [of "[d]" ds] by (simp add: digits_val_def)

lemma digits_val_nines: "digits_val (replicate n 57) = 10 ^ n - 1"
  by (induction n) (simp_all add: digits_val_Cons digit_of_low, simp add: digits_val_def)

section \<open>The Pack-Size Normalizer\<close>

lemma format_try_digits:
  assumes "d1 \<noteq> []" "\<forall>c\<in>set d1. isdecimal c" "d2 \<noteq> []" "\<forall>c\<in>set d2. isdecimal c"
    and "int (length d1) \<le> 4300" "int (length d2) \<le> 4300"
  shows "format_try v [1 \<mapsto> d1, 2 \<mapsto> d2] =
    (if dbl_limit \<le> of_int (digits_val d1 * digits_val d2) then Inl OverflowError
     else if digits_val d1 * digits_val d2 = 0 then Inr None
     else (case py_truediv v (Finite (of_int (digits_val d1 * digits_val d2) / 1000)) of
             Inl e \<Rightarrow> Inl e | Inr q \<Rightarrow> Inr (Some q)))"
proof -
  let ?n = "digits_val d1 * digits_val d2"
  have n0: "0 \<le> ?n"
    using digits_val_nonneg [of d1] digits_val_nonneg [of d2] by simp
  have i1: "py_int (group [1 \<mapsto> d1, 2 \<mapsto> d2] 1) = Inr (digits_val d1)"
    using py_int_digits [OF assms(1,2)] assms(5) by (simp add: group_def)
  have i2: "py_int (group [1 \<mapsto> d1, 2 \<mapsto> d2] 2) = Inr (digits_val d2)"
    using py_int_digits [OF assms(3,4)] assms(6) by (simp add: group_def)
  have abs_n: "\<bar>of_int ?n :: rat\<bar> = of_int ?n"
    using n0 by (simp only: abs_of_nonneg of_int_0_le_iff)
  show ?thesis
  proof (cases "dbl_limit \<le> of_int ?n")
    case True
    then have "float_of_int ?n = Inl OverflowError"
      unfolding float_of_int_def abs_n by simp
    with True show ?thesis
      unfolding format_try_def i1 i2 by simp
  next
    case False
    then have f: "float_of_int ?n = Inr (Finite (of_int ?n))"
      unfolding float_of_int_def abs_n by simp
    have r0: "(0 :: rat) \<le> of_int ?n"
      using n0 by (simp only: of_int_0_le_iff)
    then have "(of_int ?n :: rat) / 1000 \<le> of_int ?n"
      by (simp add: divide_le_eq del: of_int_mult)
    with False r0 have "fl (of_int ?n / 1000) = Finite (of_int ?n / 1000)"
      using dbl_limit_pos by (simp add: fl_def del: of_int_mult)
    then have d: "py_truediv (Finite (of_int ?n)) (Finite 1000) = Inr (Finite (of_int ?n / 1000))"
      by (simp del: of_int_mult)
    have "(0 :: rat) < of_int ?n \<longleftrightarrow> ?n \<noteq> 0"
      using n0 by (simp only: of_int_0_less_iff) linarith
    then have g: "fgt (Finite (of_int ?n / 1000)) (Finite 0) \<longleftrightarrow> ?n \<noteq> 0"
      by (simp add: fgt_def flt_def del: of_int_mult)
    from False show ?thesis
      unfolding format_try_def i1 i2 sum.case f d g by (simp del: of_int_mult split: sum.splits)
  qed
qed

lemma pack_size_contract:
  assumes "nettoyer_prix_total p = Inr v"
  shows "fle v (Finite 0) \<Longrightarrow> calculer_prix_par_format p t = Inr (Finite 0)"
    and "re_search pack_re t = None \<Longrightarrow> calculer_prix_par_format p t = Inr (Finite 0)"
    and "\<not> fle v (Finite 0) \<Longrightarrow> re_search pack_re t = Some g \<Longrightarrow>
      \<exists>d1 d2. g = [1 \<mapsto> d1, 2 \<mapsto> d2] \<and>
        d1 \<noteq> [] \<and> (\<forall>c\<in>set d1. isdecimal c) \<and> d2 \<noteq> [] \<and> (\<forall>c\<in>set d2. isdecimal c) \<and>
        calculer_prix_par_format p t =
          (if 4300 < int (length d1) \<or> 4300 < int (length d2) then Inr (Finite 0)
           else if digits_val d1 * digits_val d2 = 0 then Inr (Finite 0)
           else if dbl_limit \<le> of_int (digits_val d1 * digits_val d2) then Inl OverflowError
           else py_truediv v (Finite (of_int (digits_val d1 * digits_val d2) / 1000)))"
proof -
  show "fle v (Finite 0) \<Longrightarrow> calculer_prix_par_format p t = Inr (Finite 0)"
    using assms by (simp add: calculer_prix_par_format_def)
  show "re_search pack_re t = None \<Longrightarrow> calculer_prix_par_format p t = Inr (Finite 0)"
    using assms by (simp add: calculer_prix_par_format_def)
  assume pos: "\<not> fle v (Finite 0)" and m: "re_search pack_re t = Some g"
  from re_search_Some [OF m] obtain pre s' r tl where
    "t = pre @ s'" "rmatch pack_re s' Map.empty = (r, g) # tl"
    by blast
  then have "(r, g) \<in> set (rmatch pack_re s' Map.empty)"
    by simp
  from in_pack_re1 [OF this] obtain d1 d2 where g: "g = [1 \<mapsto> d1, 2 \<mapsto> d2]"
    and d: "d1 \<noteq> []" "\<forall>c\<in>set d1. isdecimal c" "d2 \<noteq> []" "\<forall>c\<in>set d2. isdecimal c"
    by blast
  let ?n = "digits_val d1 * digits_val d2"
  have n0: "0 \<le> ?n"
    using digits_val_nonneg [of d1] digits_val_nonneg [of d2] by simp
  have calc: "calculer_prix_par_format p t =
      (case format_try v g of
         Inr (Some q) \<Rightarrow> Inr q
       | Inr None \<Rightarrow> Inr (Finite 0)
       | Inl e \<Rightarrow> if e = ValueError \<or> e = TypeError \<or> e = ZeroDivisionError
                  then Inr (Finite 0) else Inl e)"
    using assms pos m by (simp add: calculer_prix_par_format_def)
  have "calculer_prix_par_format p t =
          (if 4300 < int (length d1) \<or> 4300 < int (length d2) then Inr (Finite 0)
           else if ?n = 0 then Inr (Finite 0)
           else if dbl_limit \<le> of_int ?n then Inl OverflowError
           else py_truediv v (Finite (of_int ?n / 1000)))"
  proof (cases "4300 < int (length d1) \<or> 4300 < int (length d2)")
    case True
    then have "format_try v g = Inl ValueError"
      using py_int_digits [OF d(1,2)] py_int_digits [OF d(3,4)]
      by (auto simp: format_try_def g group_def split: sum.splits)
    with True show ?thesis
      by (simp add: calc)
  next
    case False
    then have len: "int (length d1) \<le> 4300" "int (length d2) \<le> 4300"
      by simp_all
    have nz: "(of_int ?n :: rat) / 1000 \<noteq> 0" if "?n \<noteq> 0"
      using that by simp
    have over: "\<not> dbl_limit \<le> (0 :: rat)"
      using dbl_limit_pos by simp
    show ?thesis
      unfolding calc g format_try_digits [OF d len]
      using False nz over by (auto split: sum.splits option.splits)
  qed
  with g d show "\<exists>d1 d2. g = [1 \<mapsto> d1, 2 \<mapsto> d2] \<and>
        d1 \<noteq> [] \<and> (\<forall>c\<in>set d1. isdecimal c) \<and> d2 \<noteq> [] \<and> (\<forall>c\<in>set d2. isdecimal c) \<and>
        calculer_prix_par_format p t =
          (if 4300 < int (length d1) \<or> 4300 < int (length d2) then Inr (Finite 0)
           else if digits_val d1 * digits_val d2 = 0 then Inr (Finite 0)
           else if dbl_limit \<le> of_int (digits_val d1 * digits_val d2) then Inl OverflowError
           else py_truediv v (Finite (of_int (digits_val d1 * digits_val d2) / 1000)))"
    by blast
qed

text \<open>
  The example of the specification: 19.99 / 0.768 is 26.03 to the cent; a title without
  the pattern and a zero count give 0.0.
\<close>

lemma pack_size_example:
  "calculer_prix_par_format (ascii ''19,99 '' @ [euro]) (ascii ''Protein Bar 12x64g Pack'') =
     Inr (Finite (1999 / 100 / (768 / 1000))) \<and>
   \<bar>(1999 / 100 / (768 / 1000) :: rat) - 2603 / 100\<bar> < 1 / 200 \<and>
   calculer_prix_par_format (ascii ''19,99 '' @ [euro]) (ascii ''Protein Bar Pack'') = Inr (Finite 0) \<and>
   calculer_prix_par_format (ascii ''19,99 '' @ [euro]) (ascii ''Protein Bar 0x64g'') = Inr (Finite 0)"
  by (simp add: calculer_prix_par_format_def nettoyer_prix_total_def format_try_def
      str_eval num_eval re_eval)

lemma overflow_exemple:
  "calculer_prix_par_format (ascii ''1 '' @ [euro]) (ascii ''1x'' @ replicate 310 57 @ ascii ''g'') =
     Inl OverflowError"
proof -
  let ?d2 = "replicate 310 (57 :: int)"
  have prix: "nettoyer_prix_total (ascii ''1 '' @ [euro]) = Inr (Finite 1)"
    by (simp add: nettoyer_prix_total_def str_eval num_eval)
  have titre: "ascii ''1x'' @ ?d2 @ ascii ''g'' = [49] @ [] @ 120 # [] @ ?d2 @ [] @ 103 # []"
    by (simp add: ascii_def)
  have "re_first pack_re ([49] @ [] @ 120 # [] @ ?d2 @ [] @ 103 # []) Map.empty
      ([], [1 \<mapsto> [49], 2 \<mapsto> ?d2])"
    by (rule pack_re_first) (simp_all add: isdecimal_low tolower_def ascii_lower_def)
  then have m: "re_search pack_re (ascii ''1x'' @ ?d2 @ ascii ''g'') = Some [1 \<mapsto> [49], 2 \<mapsto> ?d2]"
    unfolding titre by (rule re_search_first)
  have big: "dbl_limit \<le> of_int (digits_val [49] * digits_val ?d2)"
    unfolding digits_val_nines by (simp add: digits_val_def digit_of_low dbl_limit_def)
  have "format_try (Finite 1) [1 \<mapsto> [49], 2 \<mapsto> ?d2] = Inl OverflowError"
    using big by (subst format_try_digits) (simp_all add: isdecimal_low)
  then show ?thesis
    by (simp add: calculer_prix_par_format_def prix m fle_def)
qed

text \<open>
  Claim C4. The \<open>except\<close> clause of \<open>calculer_prix_par_format\<close> names \<open>ValueError\<close>,
  \<open>TypeError\<close> and \<open>ZeroDivisionError\<close>. The division of the \<open>int\<close> product by \<open>1000.0\<close>
  converts the product to \<open>float\<close>, which raises \<open>OverflowError\<close> from \<open>2^1024 - 2^970\<close> on:
  with the price \<open>1 \<euro>\<close> and the title \<open>1x9...9g\<close> (310 nines) the exception leaves the
  function, against its docstring (0.0 when the computation is impossible). For every other
  input \<open>pack_size_contract\<close> gives the result the claim states.
\<close>

theorem pack_size_overflow:
  "calculer_prix_par_format (ascii ''1 '' @ [euro]) (ascii ''1x'' @ replicate 310 57 @ ascii ''g'') =
     Inl OverflowError"
  by (rule overflow_exemple)

section \<open>The Unit-Price Extractor\<close>

lemma extraire_boucle_first:
  "\<forall>b\<in>set pre. essai b = None \<Longrightarrow> essai b0 = Some res \<Longrightarrow>
     extraire_boucle (pre @ b0 # post) st = Inr res"
proof (induction pre arbitrary: st)
  case Nil
  obtain v u t where st: "st = (v, u, t)" by (cases st)
  from Nil show ?case
    unfolding st by (auto simp: essai_def Let_def split: option.splits sum.splits)
next
  case (Cons b pre)
  obtain v u t where st: "st = (v, u, t)" by (cases st)
  have b: "essai b = None" using Cons.prems by simp
  have "extraire_boucle (b # pre @ b0 # post) (v, u, t) =
      extraire_boucle (pre @ b0 # post) (v, u, t) \<or>
      extraire_boucle (b # pre @ b0 # post) (v, u, t) =
      extraire_boucle (pre @ b0 # post) (v, u, get_text_strip b)"
    using b by (auto simp: essai_def Let_def split: option.splits sum.splits dest: py_float_error)
  then show ?case
    unfolding st using Cons.IH Cons.prems by auto
qed

lemma extraire_boucle_none:
  "\<forall>b\<in>set spans. essai b = None \<Longrightarrow> \<exists>t. extraire_boucle spans (v, u, t0) = Inr (v, u, t)"
proof (induction spans arbitrary: t0)
  case Nil
  then show ?case by simp
next
  case (Cons b spans)
  have b: "essai b = None" using Cons.prems by simp
  have "extraire_boucle (b # spans) (v, u, t0) = extraire_boucle spans (v, u, t0) \<or>
      extraire_boucle (b # spans) (v, u, t0) = extraire_boucle spans (v, u, get_text_strip b)"
    using b by (auto simp: essai_def Let_def split: option.splits sum.splits dest: py_float_error)
  then show ?case
    using Cons.IH Cons.prems by auto
qed


lemma first_success:
  "(\<forall>b\<in>set spans. essai b = None) \<or>
   (\<exists>pre b0 post res. spans = pre @ b0 # post \<and> (\<forall>b\<in>set pre. essai b = None) \<and> essai b0 = Some res)"
proof (cases "\<exists>b\<in>set spans. essai b \<noteq> None")
  case True
  then obtain pre b0 post where sp: "spans = pre @ b0 # post" and b0: "essai b0 \<noteq> None"
    and pre: "\<forall>b\<in>set pre. \<not> essai b \<noteq> None"
    using split_list_first_prop [of spans "\<lambda>b. essai b \<noteq> None"] by blast
  from b0 obtain res where "essai b0 = Some res" by blast
  with sp pre show ?thesis by blast
next
  case False
  then have "\<forall>b\<in>set spans. essai b = None" by blast
  then show ?thesis by (rule disjI1)
qed

lemma extraire_total: "\<exists>res. extraire_prix_unitaire_amazon spans = Inr res"
  unfolding extraire_prix_unitaire_amazon_def
  using first_success [of spans] extraire_boucle_first extraire_boucle_none by metis





lemmas extraire_eval =
  extraire_prix_unitaire_amazon_def essai_def get_text_strip_def str_eval num_eval re_eval





section \<open>Listings in the store\<close>

lemmas traiter_defs = traiter_produit_avec_def new_obj_def set_attr_def Let_def

lemma extraire_total': "\<exists>v u x. extraire_prix_unitaire_amazon spans = Inr (v, u, x)"
  using extraire_total [of spans] by (metis prod_cases3)

lemma traiter_direct:
  assumes "extraire_prix_unitaire_amazon (select_prix_unitaire t) = Inr (v, u, x)"
    "fgt (calculer_prix_au_kg_direct v u) (Finite 0)"
  shows "traiter_produit_avec pf h t i =
    (h @ [\<lparr>id_produit = i, titre = titre_de t, prix_total_str = prix_total_de t, lien = lien_de t,
           prix_unitaire_kg = calculer_prix_au_kg_direct v u, source_prix_kg = source_direct,
           prix_unitaire_texte_amazon = x, prix_unitaire_valeur_amazon = v,
           prix_unitaire_unite_amazon = u\<rparr>], Inr (length h))"
  using assms by (simp add: traiter_defs)

lemma traiter_format:
  assumes "extraire_prix_unitaire_amazon (select_prix_unitaire t) = Inr (v, u, x)"
    "\<not> fgt (calculer_prix_au_kg_direct v u) (Finite 0)"
    "pf (prix_total_de t) (titre_de t) = Inr packed"
  shows "traiter_produit_avec pf h t i =
    (h @ [\<lparr>id_produit = i, titre = titre_de t, prix_total_str = prix_total_de t, lien = lien_de t,
           prix_unitaire_kg = (if fgt packed (Finite 0) then packed else Finite 0),
           source_prix_kg = (if fgt packed (Finite 0) then source_format else source_defaut),
           prix_unitaire_texte_amazon = x, prix_unitaire_valeur_amazon = v,
           prix_unitaire_unite_amazon = u\<rparr>], Inr (length h))"
  using assms by (simp add: traiter_defs)

lemma traiter_raise:
  assumes "extraire_prix_unitaire_amazon (select_prix_unitaire t) = Inr (v, u, x)"
    "\<not> fgt (calculer_prix_au_kg_direct v u) (Finite 0)"
    "pf (prix_total_de t) (titre_de t) = Inl e"
  shows "traiter_produit_avec pf h t i =
    (h @ [\<lparr>id_produit = i, titre = titre_de t, prix_total_str = prix_total_de t, lien = lien_de t,
           prix_unitaire_kg = Finite 0, source_prix_kg = source_defaut,
           prix_unitaire_texte_amazon = x, prix_unitaire_valeur_amazon = v,
           prix_unitaire_unite_amazon = u\<rparr>], Inl e)"
  using assms by (simp add: traiter_defs)


lemma ranking_filter_frame_set:
  "set (snd (nettoyer_et_trier_resultats h rs)) \<subseteq> set rs"
  by (auto simp: nettoyer_et_trier_resultats_def set_py_sorted)

lemma fgt_zero_zero: "\<not> fgt (Finite 0) (Finite 0)"
  by (simp add: fgt_def flt_def)

lemma traiter_cases:
  obtains (collected) p where "traiter_produit h t i = (h @ [p], Inr (length h))"
      "id_produit p = i" "listing_inv p" "collecte t"
    | (raised) p e where "traiter_produit h t i = (h @ [p], Inl e)" "\<not> collecte t"
proof -
  obtain v u x where ex: "extraire_prix_unitaire_amazon (select_prix_unitaire t) = Inr (v, u, x)"
    using extraire_total' by blast
  show thesis
  proof (cases "fgt (calculer_prix_au_kg_direct v u) (Finite 0)")
    case True
    note eq = traiter_direct [where pf = calculer_prix_par_format, OF ex True, folded traiter_produit_def]
    have c: "collecte t"
      by (simp add: collecte_def eq)
    show ?thesis
      by (rule collected [OF eq]) (use True sources_distinct c in \<open>simp_all add: listing_inv_def\<close>)
  next
    case False
    show ?thesis
    proof (cases "calculer_prix_par_format (prix_total_de t) (titre_de t)")
      case (Inl e)
      note eq = traiter_raise [where pf = calculer_prix_par_format, OF ex False Inl, folded traiter_produit_def]
      have c: "\<not> collecte t"
        by (simp add: collecte_def eq)
      show ?thesis
        by (rule raised [OF eq c])
    next
      case (Inr packed)
      note eq = traiter_format [where pf = calculer_prix_par_format, OF ex False Inr, folded traiter_produit_def]
      have c: "collecte t"
        by (simp add: collecte_def eq)
      show ?thesis
        by (rule collected [OF eq])
          (use sources_distinct fgt_zero_zero c in \<open>simp_all add: listing_inv_def\<close>)
    qed
  qed
qed

lemma store_step_extends: "store_step h h' \<Longrightarrow> \<exists>ext. h' = h @ ext"
proof (induction rule: store_step.induct)
  case (step_traiter h t i h' res)
  then show ?case
    by (cases rule: traiter_cases [of h t i]) auto
next
  case (step_trier h rs h' out)
  then show ?case
    by (simp add: nettoyer_et_trier_resultats_def)
qed

lemma store_steps_extend: "store_step\<^sup>*\<^sup>* h h' \<Longrightarrow> \<exists>ext. h' = h @ ext"
proof (induction rule: rtranclp_induct)
  case base
  then show ?case by simp
next
  case (step y z)
  then show ?case
    using store_step_extends [of y z] by auto
qed

lemma store_steps_nth: "store_step\<^sup>*\<^sup>* h h' \<Longrightarrow> r < length h \<Longrightarrow> h' ! r = h ! r"
  using store_steps_extend [of h h'] by (auto simp: nth_append)

lemma page_boucle:
  "extraire_page_boucle h blocs n acc = (h', rs) \<Longrightarrow>
     \<exists>new. rs = acc @ new \<and> store_step\<^sup>*\<^sup>* h h' \<and>
       (\<forall>r\<in>set new. r < length h' \<and> listing_inv (h' ! r)) \<and>
       map (\<lambda>r. id_produit (h' ! r)) new = ids_blocs n blocs"
proof (induction blocs arbitrary: h acc)
  case Nil
  then show ?case by (simp add: ids_blocs_def)
next
  case (Cons b blocs)
  obtain i t where b: "b = (i, t)" by (cases b)
  let ?id = "82 # str_of_nat (n + i + 1)"
  show ?case
  proof (cases rule: traiter_cases [of h t ?id])
    case (collected p)
    then have rec: "extraire_page_boucle (h @ [p]) blocs n (acc @ [length h]) = (h', rs)"
      using Cons.prems by (simp add: b)
    from Cons.IH [OF rec] obtain new where new: "rs = (acc @ [length h]) @ new"
      "store_step\<^sup>*\<^sup>* (h @ [p]) h'"
      "\<forall>r\<in>set new. r < length h' \<and> listing_inv (h' ! r)"
      "map (\<lambda>r. id_produit (h' ! r)) new = ids_blocs n blocs"
      by blast
    have step: "store_step h (h @ [p])"
      using collected(1) by (rule step_traiter)
    have same: "h' ! length h = p"
      using store_steps_nth [OF new(2), of "length h"] by simp
    have len: "length h < length h'"
      using store_steps_extend [OF new(2)] by auto
    have "rs = acc @ (length h # new)"
      using new(1) by simp
    moreover have "store_step\<^sup>*\<^sup>* h h'"
      using step new(2) by (rule converse_rtranclp_into_rtranclp)
    moreover have "\<forall>r\<in>set (length h # new). r < length h' \<and> listing_inv (h' ! r)"
      using new(3) same len collected(3) by simp
    moreover have "map (\<lambda>r. id_produit (h' ! r)) (length h # new) = ids_blocs n (b # blocs)"
      using new(4) same collected(2,4) by (simp add: ids_blocs_def b)
    ultimately show ?thesis by blast
  next
    case (raised p e)
    then have rec: "extraire_page_boucle (h @ [p]) blocs n acc = (h', rs)"
      using Cons.prems by (simp add: b)
    from Cons.IH [OF rec] obtain new where new: "rs = acc @ new"
      "store_step\<^sup>*\<^sup>* (h @ [p]) h'"
      "\<forall>r\<in>set new. r < length h' \<and> listing_inv (h' ! r)"
      "map (\<lambda>r. id_produit (h' ! r)) new = ids_blocs n blocs"
      by blast
    have step: "store_step h (h @ [p])"
      using raised(1) by (rule step_traiter)
    have "store_step\<^sup>*\<^sup>* h h'"
      using step new(2) by (rule converse_rtranclp_into_rtranclp)
    moreover have "map (\<lambda>r. id_produit (h' ! r)) new = ids_blocs n (b # blocs)"
      using new(4) raised(2) by (simp add: ids_blocs_def b)
    ultimately show ?thesis
      using new(1,3) by blast
  qed
qed

lemma page_result:
  assumes "extraire_donnees_page h produits n = (h', rs)"
  shows "store_step\<^sup>*\<^sup>* h h'" "\<forall>r\<in>set rs. r < length h' \<and> listing_inv (h' ! r)"
    "map (\<lambda>r. id_produit (h' ! r)) rs = ids_page n produits"
  using page_boucle [of h "enumerate 0 produits" n "[]" h' rs] assms
  by (auto simp: extraire_donnees_page_def ids_page_def)

lemma main_boucle_result:
  "main_boucle charger nums h tot n = (h', tot') \<Longrightarrow>
     \<exists>new. tot' = tot @ new \<and> store_step\<^sup>*\<^sup>* h h' \<and>
       (\<forall>r\<in>set new. r < length h' \<and> listing_inv (h' ! r)) \<and>
       map (\<lambda>r. id_produit (h' ! r)) new = ids_attendus n (pages_chargees charger nums)"
proof (induction nums arbitrary: h tot n)
  case Nil
  then show ?case by simp
next
  case (Cons k nums)
  show ?case
  proof (cases "charger k")
    case (Inl e)
    with Cons.prems show ?thesis by simp
  next
    case (Inr produits)
    obtain h1 rs where page: "extraire_donnees_page h produits n = (h1, rs)"
      by (cases "extraire_donnees_page h produits n")
    note pr = page_result [OF page]
    have len: "length rs = length (ids_page n produits)"
      using pr(3) by (metis length_map)
    have rec: "main_boucle charger nums h1 (tot @ rs) (n + length rs) = (h', tot')"
      using Cons.prems Inr page by simp
    from Cons.IH [OF rec] obtain new where new: "tot' = (tot @ rs) @ new"
      "store_step\<^sup>*\<^sup>* h1 h'"
      "\<forall>r\<in>set new. r < length h' \<and> listing_inv (h' ! r)"
      "map (\<lambda>r. id_produit (h' ! r)) new = ids_attendus (n + length rs) (pages_chargees charger nums)"
      by blast
    have keep: "h' ! r = h1 ! r" if "r \<in> set rs" for r
      using store_steps_nth [OF new(2)] pr(2) that by blast
    have longer: "length h1 \<le> length h'"
      using store_steps_extend [OF new(2)] by auto
    have "tot' = tot @ (rs @ new)"
      using new(1) by simp
    moreover have "store_step\<^sup>*\<^sup>* h h'"
      using pr(1) new(2) by (rule rtranclp_trans)
    moreover have "\<forall>r\<in>set (rs @ new). r < length h' \<and> listing_inv (h' ! r)"
      using new(3) pr(2) keep longer by auto
    moreover have "map (\<lambda>r. id_produit (h' ! r)) rs = ids_page n produits"
      using pr(3) keep by (metis (no_types, lifting) map_eq_conv)
    then have "map (\<lambda>r. id_produit (h' ! r)) (rs @ new) =
        ids_attendus n (pages_chargees charger (k # nums))"
      using new(4) Inr len by simp
    ultimately show ?thesis by blast
  qed
qed

lemma main_result:
  assumes "main charger = (h, tot, tries)"
  shows "\<forall>r\<in>set tot. r < length h \<and> listing_inv (h ! r)"
    "map (\<lambda>r. id_produit (h ! r)) tot = ids_attendus 0 (pages_chargees charger [1..<MAX_PAGES + 1])"
    "set tries \<subseteq> set tot"
proof -
  obtain h0 tot0 where loop: "main_boucle charger [1..<MAX_PAGES + 1] [] [] 0 = (h0, tot0)"
    by (cases "main_boucle charger [1..<MAX_PAGES + 1] [] [] 0")
  have eq: "h = h0" "tot = tot0"
    "tries = snd (nettoyer_et_trier_resultats h0 tot0)"
    using assms loop by (auto simp: main_def nettoyer_et_trier_resultats_def Let_def)
  from main_boucle_result [OF loop] show "\<forall>r\<in>set tot. r < length h \<and> listing_inv (h ! r)"
    "map (\<lambda>r. id_produit (h ! r)) tot = ids_attendus 0 (pages_chargees charger [1..<MAX_PAGES + 1])"
    unfolding eq by auto
  show "set tries \<subseteq> set tot"
    unfolding eq using ranking_filter_frame_set [of h0 tot0] by simp
qed

section \<open>The example run, block by block\<close>

lemma ex_direct:
  "extraire_prix_unitaire_amazon (select_prix_unitaire tag_direct) =
     Inr (Finite (41 / 2), ascii ''kg'', ascii ''(20,50 '' @ [euro] @ ascii ''/kg)'')"
  "calculer_prix_au_kg_direct (Finite (41 / 2)) (ascii ''kg'') = Finite (41 / 2)"
  "fgt (Finite (41 / 2)) (Finite 0)"
  "calculer_prix_par_format (prix_total_de tag_direct) (titre_de tag_direct) =
     Inr (Finite (9995 / 384))"
  "fgt (Finite (9995 / 384)) (Finite 0)"
  by (simp_all add: tag_direct_def extraire_eval calculer_prix_au_kg_direct_def
      calculer_prix_par_format_def nettoyer_prix_total_def format_try_def
      prix_total_de_def titre_de_def)

lemma ex_format:
  "extraire_prix_unitaire_amazon (select_prix_unitaire tag_format) =
     Inr (Finite 0, ascii ''N/A'', ascii ''N/A'')"
  "calculer_prix_au_kg_direct (Finite 0) (ascii ''N/A'') = Finite 0"
  "calculer_prix_par_format (prix_total_de tag_format) (titre_de tag_format) = Inr (Finite 30)"
  "fgt (Finite 30) (Finite 0)"
  by (simp_all add: tag_format_def extraire_eval calculer_prix_au_kg_direct_def
      calculer_prix_par_format_def nettoyer_prix_total_def format_try_def
      prix_total_de_def titre_de_def)

lemma ex_aucun:
  "extraire_prix_unitaire_amazon (select_prix_unitaire tag_aucun) =
     Inr (Finite 0, ascii ''N/A'', ascii ''N/A'')"
  "calculer_prix_par_format (prix_total_de tag_aucun) (titre_de tag_aucun) = Inr (Finite 0)"
  by (simp_all add: tag_aucun_def extraire_eval calculer_prix_au_kg_direct_def
      calculer_prix_par_format_def nettoyer_prix_total_def format_try_def
      prix_total_de_def titre_de_def titre_non_trouve_def)

lemma ex_debordement:
  "extraire_prix_unitaire_amazon (select_prix_unitaire tag_debordement) =
     Inr (Finite 0, ascii ''N/A'', ascii ''N/A'')"
  "calculer_prix_par_format (prix_total_de tag_debordement) (titre_de tag_debordement) =
     Inl OverflowError"
  "titre_de tag_debordement = ascii ''1x'' @ replicate 310 57 @ ascii ''g''"
proof -
  show "extraire_prix_unitaire_amazon (select_prix_unitaire tag_debordement) =
     Inr (Finite 0, ascii ''N/A'', ascii ''N/A'')"
    by (simp add: tag_debordement_def extraire_eval)
  have "str_strip (ascii ''1x'' @ replicate 310 57 @ ascii ''g'') =
      ascii ''1x'' @ replicate 310 57 @ ascii ''g''"
    unfolding str_strip_def by (rule strip_id) (simp_all add: ascii_def isspace_def)
  then show "calculer_prix_par_format (prix_total_de tag_debordement) (titre_de tag_debordement) =
     Inl OverflowError"
    "titre_de tag_debordement = ascii ''1x'' @ replicate 310 57 @ ascii ''g''"
    by (simp_all add: tag_debordement_def prix_total_de_def titre_de_def overflow_exemple)
qed

section \<open>The Resolution Policy\<close>

text \<open>
  Claim C1. For every block, store and identifier: when the Direct Normalizer gives a value
  \<open>> 0\<close> on what the extractor returned, \<open>_traiter_produit\<close> returns the listing with that
  value and the source \<open>Amazon (Direct)\<close>, and does so whatever function stands in the
  place of \<open>calculer_prix_par_format\<close> (one that raises included): the pack-size function
  is not called. Otherwise, when the pack-size function applied to the raw price text and
  the title gives a value \<open>> 0\<close>, the listing has that value and the source
  \<open>Calcule (NxG)\<close> (written with an acute accent in the source); and when it gives a value
  that is not \<open>> 0\<close>, the listing keeps the price 0.0 and the default source.
\<close>

theorem resolution_order:
  "(extraire_prix_unitaire_amazon (select_prix_unitaire t) = Inr (v, u, x) \<and>
    fgt (calculer_prix_au_kg_direct v u) (Finite 0) \<longrightarrow>
      (\<exists>h'. traiter_produit h t i = (h', Inr (length h)) \<and>
            traiter_produit_avec pf h t i = (h', Inr (length h)) \<and>
            prix_unitaire_kg (h' ! length h) = calculer_prix_au_kg_direct v u \<and>
            source_prix_kg (h' ! length h) = source_direct)) \<and>
   (extraire_prix_unitaire_amazon (select_prix_unitaire t) = Inr (v, u, x) \<and>
    \<not> fgt (calculer_prix_au_kg_direct v u) (Finite 0) \<and>
    calculer_prix_par_format (prix_total_de t) (titre_de t) = Inr packed \<and>
    fgt packed (Finite 0) \<longrightarrow>
      (\<exists>h'. traiter_produit h t i = (h', Inr (length h)) \<and>
            prix_unitaire_kg (h' ! length h) = packed \<and>
            source_prix_kg (h' ! length h) = source_format)) \<and>
   (extraire_prix_unitaire_amazon (select_prix_unitaire t) = Inr (v, u, x) \<and>
    \<not> fgt (calculer_prix_au_kg_direct v u) (Finite 0) \<and>
    calculer_prix_par_format (prix_total_de t) (titre_de t) = Inr packed \<and>
    \<not> fgt packed (Finite 0) \<longrightarrow>
      (\<exists>h'. traiter_produit h t i = (h', Inr (length h)) \<and>
            prix_unitaire_kg (h' ! length h) = Finite 0 \<and>
            source_prix_kg (h' ! length h) = source_defaut))"
proof (intro conjI impI; elim conjE)
  assume ex: "extraire_prix_unitaire_amazon (select_prix_unitaire t) = Inr (v, u, x)"
    and d: "fgt (calculer_prix_au_kg_direct v u) (Finite 0)"
  show "\<exists>h'. traiter_produit h t i = (h', Inr (length h)) \<and>
            traiter_produit_avec pf h t i = (h', Inr (length h)) \<and>
            prix_unitaire_kg (h' ! length h) = calculer_prix_au_kg_direct v u \<and>
            source_prix_kg (h' ! length h) = source_direct"
    unfolding traiter_produit_def
      traiter_direct [where pf = calculer_prix_par_format, OF ex d]
      traiter_direct [where pf = pf, OF ex d]
    by simp
next
  assume ex: "extraire_prix_unitaire_amazon (select_prix_unitaire t) = Inr (v, u, x)"
    and d: "\<not> fgt (calculer_prix_au_kg_direct v u) (Finite 0)"
    and p: "calculer_prix_par_format (prix_total_de t) (titre_de t) = Inr packed"
    and pos: "fgt packed (Finite 0)"
  show "\<exists>h'. traiter_produit h t i = (h', Inr (length h)) \<and>
            prix_unitaire_kg (h' ! length h) = packed \<and>
            source_prix_kg (h' ! length h) = source_format"
    unfolding traiter_produit_def
      traiter_format [where pf = calculer_prix_par_format, OF ex d p]
    using pos by simp
next
  assume ex: "extraire_prix_unitaire_amazon (select_prix_unitaire t) = Inr (v, u, x)"
    and d: "\<not> fgt (calculer_prix_au_kg_direct v u) (Finite 0)"
    and p: "calculer_prix_par_format (prix_total_de t) (titre_de t) = Inr packed"
    and pos: "\<not> fgt packed (Finite 0)"
  show "\<exists>h'. traiter_produit h t i = (h', Inr (length h)) \<and>
            prix_unitaire_kg (h' ! length h) = Finite 0 \<and>
            source_prix_kg (h' ! length h) = source_defaut"
    unfolding traiter_produit_def
      traiter_format [where pf = calculer_prix_par_format, OF ex d p]
    using pos by simp
qed

theorem resolution_order_witness:
  "extraire_prix_unitaire_amazon (select_prix_unitaire tag_direct) =
     Inr (Finite (41 / 2), ascii ''kg'', ascii ''(20,50 '' @ [euro] @ ascii ''/kg)'') \<and>
   calculer_prix_au_kg_direct (Finite (41 / 2)) (ascii ''kg'') = Finite (41 / 2) \<and>
   fgt (Finite (41 / 2)) (Finite 0) \<and>
   calculer_prix_par_format (prix_total_de tag_direct) (titre_de tag_direct) =
     Inr (Finite (9995 / 384)) \<and>
   (\<exists>h'. traiter_produit [] tag_direct (ascii ''R1'') = (h', Inr 0) \<and>
         traiter_produit_avec (\<lambda>p t. Inl TypeError) [] tag_direct (ascii ''R1'') = (h', Inr 0) \<and>
         prix_unitaire_kg (h' ! 0) = Finite (41 / 2) \<and>
         source_prix_kg (h' ! 0) = source_direct) \<and>
   extraire_prix_unitaire_amazon (select_prix_unitaire tag_format) =
     Inr (Finite 0, ascii ''N/A'', ascii ''N/A'') \<and>
   \<not> fgt (calculer_prix_au_kg_direct (Finite 0) (ascii ''N/A'')) (Finite 0) \<and>
   calculer_prix_par_format (prix_total_de tag_format) (titre_de tag_format) = Inr (Finite 30) \<and>
   fgt (Finite 30) (Finite 0) \<and>
   (\<exists>h'. traiter_produit [] tag_format (ascii ''R2'') = (h', Inr 0) \<and>
         prix_unitaire_kg (h' ! 0) = Finite 30 \<and>
         source_prix_kg (h' ! 0) = source_format) \<and>
   extraire_prix_unitaire_amazon (select_prix_unitaire tag_aucun) =
     Inr (Finite 0, ascii ''N/A'', ascii ''N/A'') \<and>
   calculer_prix_par_format (prix_total_de tag_aucun) (titre_de tag_aucun) = Inr (Finite 0) \<and>
   \<not> fgt (Finite 0) (Finite 0) \<and>
   (\<exists>h'. traiter_produit [] tag_aucun (ascii ''R3'') = (h', Inr 0) \<and>
         prix_unitaire_kg (h' ! 0) = Finite 0 \<and>
         source_prix_kg (h' ! 0) = source_defaut)"
proof -
  have d0: "\<not> fgt (calculer_prix_au_kg_direct (Finite 0) (ascii ''N/A'')) (Finite 0)"
    by (simp add: ex_format(2) fgt_zero_zero)
  have d1: "fgt (calculer_prix_au_kg_direct (Finite (41 / 2)) (ascii ''kg'')) (Finite 0)"
    by (simp add: ex_direct(2,3))
  have c1: "\<exists>h'. traiter_produit [] tag_direct (ascii ''R1'') = (h', Inr 0) \<and>
         traiter_produit_avec (\<lambda>p t. Inl TypeError) [] tag_direct (ascii ''R1'') = (h', Inr 0) \<and>
         prix_unitaire_kg (h' ! 0) = Finite (41 / 2) \<and>
         source_prix_kg (h' ! 0) = source_direct"
    using resolution_order [of tag_direct "Finite (41 / 2)" "ascii ''kg''"
        "ascii ''(20,50 '' @ [euro] @ ascii ''/kg)''" "[]" "ascii ''R1''" "\<lambda>p t. Inl TypeError"]
      ex_direct(1) d1
    by (simp add: ex_direct(2))
  have c2: "\<exists>h'. traiter_produit [] tag_format (ascii ''R2'') = (h', Inr 0) \<and>
         prix_unitaire_kg (h' ! 0) = Finite 30 \<and>
         source_prix_kg (h' ! 0) = source_format"
    using resolution_order [of tag_format "Finite 0" "ascii ''N/A''" "ascii ''N/A''" "[]"
        "ascii ''R2''" _ "Finite 30"]
      ex_format(1,3,4) d0
    by simp
  have c3: "\<exists>h'. traiter_produit [] tag_aucun (ascii ''R3'') = (h', Inr 0) \<and>
         prix_unitaire_kg (h' ! 0) = Finite 0 \<and>
         source_prix_kg (h' ! 0) = source_defaut"
    using resolution_order [of tag_aucun "Finite 0" "ascii ''N/A''" "ascii ''N/A''" "[]"
        "ascii ''R3''" _ "Finite 0"]
      ex_aucun d0 fgt_zero_zero
    by simp
  note ex_direct(1,2,3,4) ex_format(1,3,4) ex_aucun fgt_zero_zero
  then show ?thesis
    using d0 c1 c2 c3 by (intro conjI)
qed

section \<open>The example run, page by page\<close>

lemma traiter_exemples:
  "traiter_produit h tag_direct i =
    (h @ [\<lparr>id_produit = i, titre = ascii ''Barre A 12x64g'',
           prix_total_str = ascii ''19,99 '' @ [euro], lien = URL_BASE_AMAZON @ ascii ''/dp/A'',
           prix_unitaire_kg = Finite (41 / 2), source_prix_kg = source_direct,
           prix_unitaire_texte_amazon = ascii ''(20,50 '' @ [euro] @ ascii ''/kg)'',
           prix_unitaire_valeur_amazon = Finite (41 / 2),
           prix_unitaire_unite_amazon = ascii ''kg''\<rparr>], Inr (length h))"
  "traiter_produit h tag_format i =
    (h @ [\<lparr>id_produit = i, titre = ascii ''Barre B 10x50g'',
           prix_total_str = ascii ''15,00 '' @ [euro],
           lien = URL_BASE_AMAZON @ lien_non_trouve,
           prix_unitaire_kg = Finite 30, source_prix_kg = source_format,
           prix_unitaire_texte_amazon = ascii ''N/A'',
           prix_unitaire_valeur_amazon = Finite 0,
           prix_unitaire_unite_amazon = ascii ''N/A''\<rparr>], Inr (length h))"
  "traiter_produit h tag_aucun i =
    (h @ [\<lparr>id_produit = i, titre = titre_non_trouve,
           prix_total_str = ascii ''N/A'', lien = lien_non_trouve,
           prix_unitaire_kg = Finite 0, source_prix_kg = source_defaut,
           prix_unitaire_texte_amazon = ascii ''N/A'',
           prix_unitaire_valeur_amazon = Finite 0,
           prix_unitaire_unite_amazon = ascii ''N/A''\<rparr>], Inr (length h))"
  "traiter_produit h tag_debordement i =
    (h @ [\<lparr>id_produit = i, titre = ascii ''1x'' @ replicate 310 57 @ ascii ''g'',
           prix_total_str = ascii ''1 '' @ [euro], lien = lien_non_trouve,
           prix_unitaire_kg = Finite 0, source_prix_kg = source_defaut,
           prix_unitaire_texte_amazon = ascii ''N/A'',
           prix_unitaire_valeur_amazon = Finite 0,
           prix_unitaire_unite_amazon = ascii ''N/A''\<rparr>], Inl OverflowError)"
proof -
  have d0: "\<not> fgt (calculer_prix_au_kg_direct (Finite 0) (ascii ''N/A'')) (Finite 0)"
    by (simp add: ex_format(2) fgt_zero_zero)
  have d1: "fgt (calculer_prix_au_kg_direct (Finite (41 / 2)) (ascii ''kg'')) (Finite 0)"
    by (simp add: ex_direct(2,3))
  show "traiter_produit h tag_direct i =
    (h @ [\<lparr>id_produit = i, titre = ascii ''Barre A 12x64g'',
           prix_total_str = ascii ''19,99 '' @ [euro], lien = URL_BASE_AMAZON @ ascii ''/dp/A'',
           prix_unitaire_kg = Finite (41 / 2), source_prix_kg = source_direct,
           prix_unitaire_texte_amazon = ascii ''(20,50 '' @ [euro] @ ascii ''/kg)'',
           prix_unitaire_valeur_amazon = Finite (41 / 2),
           prix_unitaire_unite_amazon = ascii ''kg''\<rparr>], Inr (length h))"
    unfolding traiter_produit_def
      traiter_direct [where pf = calculer_prix_par_format, OF ex_direct(1) d1] ex_direct(2)
    by (simp add: tag_direct_def titre_de_def prix_total_de_def lien_de_def str_eval)
  show "traiter_produit h tag_format i =
    (h @ [\<lparr>id_produit = i, titre = ascii ''Barre B 10x50g'',
           prix_total_str = ascii ''15,00 '' @ [euro],
           lien = URL_BASE_AMAZON @ lien_non_trouve,
           prix_unitaire_kg = Finite 30, source_prix_kg = source_format,
           prix_unitaire_texte_amazon = ascii ''N/A'',
           prix_unitaire_valeur_amazon = Finite 0,
           prix_unitaire_unite_amazon = ascii ''N/A''\<rparr>], Inr (length h))"
    unfolding traiter_produit_def
      traiter_format [where pf = calculer_prix_par_format, OF ex_format(1) d0 ex_format(3)]
    by (simp add: ex_format(4) tag_format_def titre_de_def prix_total_de_def lien_de_def str_eval)
  show "traiter_produit h tag_aucun i =
    (h @ [\<lparr>id_produit = i, titre = titre_non_trouve,
           prix_total_str = ascii ''N/A'', lien = lien_non_trouve,
           prix_unitaire_kg = Finite 0, source_prix_kg = source_defaut,
           prix_unitaire_texte_amazon = ascii ''N/A'',
           prix_unitaire_valeur_amazon = Finite 0,
           prix_unitaire_unite_amazon = ascii ''N/A''\<rparr>], Inr (length h))"
    unfolding traiter_produit_def
      traiter_format [where pf = calculer_prix_par_format, OF ex_aucun(1) d0 ex_aucun(2)]
    by (simp add: fgt_zero_zero tag_aucun_def titre_de_def prix_total_de_def lien_de_def)
  show "traiter_produit h tag_debordement i =
    (h @ [\<lparr>id_produit = i, titre = ascii ''1x'' @ replicate 310 57 @ ascii ''g'',
           prix_total_str = ascii ''1 '' @ [euro], lien = lien_non_trouve,
           prix_unitaire_kg = Finite 0, source_prix_kg = source_defaut,
           prix_unitaire_texte_amazon = ascii ''N/A'',
           prix_unitaire_valeur_amazon = Finite 0,
           prix_unitaire_unite_amazon = ascii ''N/A''\<rparr>], Inl OverflowError)"
    unfolding traiter_produit_def
      traiter_raise [where pf = calculer_prix_par_format, OF ex_debordement(1) d0 ex_debordement(2)]
      ex_debordement(3)
    by (simp add: tag_debordement_def prix_total_de_def lien_de_def)
qed

lemma store_final_prefixes:
  "traiter_produit [] tag_direct (ascii ''R1'') = (take 1 store_final, Inr 0)"
  "traiter_produit (take 1 store_final) tag_debordement (ascii ''R2'') =
     (take 2 store_final, Inl OverflowError)"
  "traiter_produit (take 2 store_final) tag_format (ascii ''R3'') = (take 3 store_final, Inr 2)"
  "traiter_produit (take 3 store_final) tag_aucun (ascii ''R3'') = (store_final, Inr 3)"
  by (simp_all add: traiter_exemples store_final_def)

lemma store_final_steps:
  "store_step\<^sup>*\<^sup>* (take 1 store_final) store_final"
  "store_step\<^sup>*\<^sup>* (take 3 store_final) store_final"
proof -
  have 1: "store_step (take 1 store_final) (take 2 store_final)"
    using store_final_prefixes(2) by (rule step_traiter)
  have 2: "store_step (take 2 store_final) (take 3 store_final)"
    using store_final_prefixes(3) by (rule step_traiter)
  have 3: "store_step (take 3 store_final) store_final"
    using store_final_prefixes(4) by (rule step_traiter)
  from 3 show "store_step\<^sup>*\<^sup>* (take 3 store_final) store_final"
    by (rule r_into_rtranclp)
  with 1 2 show "store_step\<^sup>*\<^sup>* (take 1 store_final) store_final"
    by (meson converse_rtranclp_into_rtranclp)
qed

lemma page_exemple:
  "extraire_donnees_page [] [tag_direct, tag_debordement, tag_format] 0 =
     (take 3 store_final, [0, 2])"
  by (simp add: extraire_donnees_page_def enumerate_eq_zip upt_rec traiter_exemples
      store_final_def str_of_nat.simps ascii_def)

lemma main_exemple: "main charger_exemple = (store_final, [0, 2, 3], [0, 2])"
proof -
  have nums: "[1..<MAX_PAGES + 1] = [1, 2, 3]"
    by (simp add: MAX_PAGES_def upt_rec)
  have page2: "extraire_donnees_page (take 3 store_final) [tag_aucun] 2 = (store_final, [3])"
    by (simp add: extraire_donnees_page_def traiter_exemples store_final_def
        str_of_nat.simps ascii_def)
  have page2': "extraire_donnees_page (take 3 store_final) [tag_aucun] (Suc (Suc 0)) =
      (store_final, [3])"
    using page2 by (simp only: numeral_2_eq_2)
  have loop: "main_boucle charger_exemple [1, 2, 3] [] [] 0 = (store_final, [0, 2, 3])"
    by (simp add: charger_exemple_def page_exemple page2')
  have tri: "nettoyer_et_trier_resultats store_final [0, 2, 3] = (store_final, [0, 2])"
    by (simp add: nettoyer_et_trier_resultats_def py_sorted_def store_final_def
        fgt_def flt_def)
  show ?thesis
    unfolding main_def nums loop by (simp add: tri)
qed

lemma collecte_exemples:
  "collecte tag_direct" "\<not> collecte tag_debordement" "collecte tag_format" "collecte tag_aucun"
  by (simp_all add: collecte_def traiter_exemples)

lemma ids_exemple:
  "ids_page 0 [tag_direct, tag_debordement, tag_format] = [ascii ''R1'', ascii ''R3'']"
  "ids_attendus 0 (pages_chargees charger_exemple [1..<MAX_PAGES + 1]) =
     [ascii ''R1'', ascii ''R3'', ascii ''R3'']"
proof -
  have nums: "[1..<MAX_PAGES + 1] = [1, 2, 3]"
    by (simp add: MAX_PAGES_def upt_rec)
  show 1: "ids_page 0 [tag_direct, tag_debordement, tag_format] = [ascii ''R1'', ascii ''R3'']"
    by (simp add: ids_page_def ids_blocs_def enumerate_eq_zip upt_rec collecte_exemples
        str_of_nat.simps ascii_def)
  have 2: "ids_page 2 [tag_aucun] = [ascii ''R3'']"
    by (simp add: ids_page_def ids_blocs_def collecte_exemples str_of_nat.simps ascii_def)
  show "ids_attendus 0 (pages_chargees charger_exemple [1..<MAX_PAGES + 1]) =
     [ascii ''R1'', ascii ''R3'', ascii ''R3'']"
    unfolding nums by (simp add: charger_exemple_def 1 2 [unfolded numeral_2_eq_2])
qed

section \<open>The invariant of the data model\<close>

text \<open>
  Claim C2. The listing \<open>_traiter_produit\<close> returns is in one of two states, and in one only:
  its price per kilogram is \<open>> 0\<close> and its source is not the default one, or its price is 0.0
  and its source is the default one. It is the same listing, with the same fields, at every
  later point: after any number of calls of \<open>_traiter_produit\<close> and of
  \<open>nettoyer_et_trier_resultats\<close>. In particular every listing \<open>main\<close> collected, and every
  listing it hands to the report, is in one of the two states in the final store.
\<close>

theorem listing_invariant:
  "(traiter_produit h t i = (h1, Inr r) \<and> store_step\<^sup>*\<^sup>* h1 h2 \<longrightarrow>
      listing_inv (h1 ! r) \<and> h2 ! r = h1 ! r \<and> listing_inv (h2 ! r)) \<and>
   (main charger = (hf, tot, tries) \<longrightarrow>
      list_all (\<lambda>r. listing_inv (hf ! r)) tot \<and> list_all (\<lambda>r. listing_inv (hf ! r)) tries) \<and>
   (listing_inv p \<longleftrightarrow>
      (fgt (prix_unitaire_kg p) (Finite 0) \<and> source_prix_kg p \<noteq> source_defaut) \<noteq>
      (prix_unitaire_kg p = Finite 0 \<and> source_prix_kg p = source_defaut))"
proof -
  have A: "traiter_produit h t i = (h1, Inr r) \<and> store_step\<^sup>*\<^sup>* h1 h2 \<longrightarrow>
      listing_inv (h1 ! r) \<and> h2 ! r = h1 ! r \<and> listing_inv (h2 ! r)"
  proof (rule impI)
    assume a: "traiter_produit h t i = (h1, Inr r) \<and> store_step\<^sup>*\<^sup>* h1 h2"
    then have run: "traiter_produit h t i = (h1, Inr r)" and later: "store_step\<^sup>*\<^sup>* h1 h2"
      by simp_all
    from run obtain q where q: "h1 = h @ [q]" "r = length h" "listing_inv q"
      by (cases rule: traiter_cases [of h t i]) auto
    then have 1: "listing_inv (h1 ! r)" and len: "r < length h1"
      by simp_all
    have 2: "h2 ! r = h1 ! r"
      using later len by (rule store_steps_nth)
    with 1 show "listing_inv (h1 ! r) \<and> h2 ! r = h1 ! r \<and> listing_inv (h2 ! r)"
      by simp
  qed
  have B: "main charger = (hf, tot, tries) \<longrightarrow>
      list_all (\<lambda>r. listing_inv (hf ! r)) tot \<and> list_all (\<lambda>r. listing_inv (hf ! r)) tries"
  proof (rule impI)
    assume m: "main charger = (hf, tot, tries)"
    note res = main_result [OF m]
    have "list_all (\<lambda>r. listing_inv (hf ! r)) tot"
      using res(1) by (simp add: list_all_iff)
    moreover have "list_all (\<lambda>r. listing_inv (hf ! r)) tries"
      using res(1,3) by (auto simp: list_all_iff)
    ultimately show "list_all (\<lambda>r. listing_inv (hf ! r)) tot \<and>
        list_all (\<lambda>r. listing_inv (hf ! r)) tries"
      by simp
  qed
  have "\<not> fgt (Finite 0) (Finite 0)"
    by (rule fgt_zero_zero)
  then have C: "listing_inv p \<longleftrightarrow>
      (fgt (prix_unitaire_kg p) (Finite 0) \<and> source_prix_kg p \<noteq> source_defaut) \<noteq>
      (prix_unitaire_kg p = Finite 0 \<and> source_prix_kg p = source_defaut)"
    unfolding listing_inv_def by metis
  show ?thesis
    by (rule conjI [OF A conjI [OF B C]])
qed

theorem listing_invariant_witness:
  "traiter_produit [] tag_direct (ascii ''R1'') = (take 1 store_final, Inr 0) \<and>
   store_step\<^sup>*\<^sup>* (take 1 store_final) store_final \<and>
   listing_inv (take 1 store_final ! 0) \<and>
   store_final ! 0 = take 1 store_final ! 0 \<and>
   listing_inv (store_final ! 0) \<and>
   main charger_exemple = (store_final, [0, 2, 3], [0, 2]) \<and>
   list_all (\<lambda>r. listing_inv (store_final ! r)) [0, 2, 3] \<and>
   list_all (\<lambda>r. listing_inv (store_final ! r)) [0, 2] \<and>
   prix_unitaire_kg (store_final ! 0) = Finite (41 / 2) \<and>
   source_prix_kg (store_final ! 0) = source_direct \<and>
   prix_unitaire_kg (store_final ! 2) = Finite 30 \<and>
   source_prix_kg (store_final ! 2) = source_format \<and>
   prix_unitaire_kg (store_final ! 3) = Finite 0 \<and>
   source_prix_kg (store_final ! 3) = source_defaut"
proof -
  note inst = listing_invariant [of "[]" tag_direct "ascii ''R1''" "take 1 store_final" 0
      store_final charger_exemple store_final "[0, 2, 3]" "[0, 2]"]
  have a: "listing_inv (take 1 store_final ! 0)"
    and b: "store_final ! 0 = take 1 store_final ! 0"
    and c: "listing_inv (store_final ! 0)"
    using inst store_final_prefixes(1) store_final_steps(1) by blast+
  have d: "list_all (\<lambda>r. listing_inv (store_final ! r)) [0, 2, 3]"
    and e: "list_all (\<lambda>r. listing_inv (store_final ! r)) [0, 2]"
    using inst main_exemple by blast+
  have f: "prix_unitaire_kg (store_final ! 0) = Finite (41 / 2)"
    "source_prix_kg (store_final ! 0) = source_direct"
    "prix_unitaire_kg (store_final ! 2) = Finite 30"
    "source_prix_kg (store_final ! 2) = source_format"
    "prix_unitaire_kg (store_final ! 3) = Finite 0"
    "source_prix_kg (store_final ! 3) = source_defaut"
    by (simp_all add: store_final_def)
  note store_final_prefixes(1) store_final_steps(1) a b c main_exemple d e f
  then show ?thesis
    by (intro conjI)
qed

section \<open>The identifier scheme\<close>

text \<open>
  Claim C9. The identifiers of the listings a page gives are, in order, \<open>R\<close> followed by
  the running count the page was reached with plus the 1-based index of the block in the
  page, for the blocks whose processing raised nothing; they are read in any later store,
  so they have not changed since the extraction. Over the run of \<open>main\<close>, in its final store,
  the identifiers of the collected listings are those of the scheme, page after page, the
  running count being the number of listings collected from the pages before; the sorted
  list holds collected listings only.
\<close>

theorem identifier_scheme:
  "(extraire_donnees_page h produits n = (h1, rs) \<and> store_step\<^sup>*\<^sup>* h1 h2 \<longrightarrow>
      map (\<lambda>r. id_produit (h2 ! r)) rs = ids_page n produits) \<and>
   (main charger = (hf, tot, tries) \<longrightarrow>
      map (\<lambda>r. id_produit (hf ! r)) tot =
        ids_attendus 0 (pages_chargees charger [1..<MAX_PAGES + 1]) \<and>
      set tries \<subseteq> set tot)"
proof -
  have A: "extraire_donnees_page h produits n = (h1, rs) \<and> store_step\<^sup>*\<^sup>* h1 h2 \<longrightarrow>
      map (\<lambda>r. id_produit (h2 ! r)) rs = ids_page n produits"
  proof (rule impI)
    assume a: "extraire_donnees_page h produits n = (h1, rs) \<and> store_step\<^sup>*\<^sup>* h1 h2"
    then have page: "extraire_donnees_page h produits n = (h1, rs)"
      and later: "store_step\<^sup>*\<^sup>* h1 h2"
      by simp_all
    note pr = page_result [OF page]
    have "h2 ! r = h1 ! r" if "r \<in> set rs" for r
      using store_steps_nth [OF later] pr(2) that by blast
    then have "map (\<lambda>r. id_produit (h2 ! r)) rs = map (\<lambda>r. id_produit (h1 ! r)) rs"
      by simp
    with pr(3) show "map (\<lambda>r. id_produit (h2 ! r)) rs = ids_page n produits"
      by simp
  qed
  have B: "main charger = (hf, tot, tries) \<longrightarrow>
      map (\<lambda>r. id_produit (hf ! r)) tot =
        ids_attendus 0 (pages_chargees charger [1..<MAX_PAGES + 1]) \<and>
      set tries \<subseteq> set tot"
  proof (rule impI)
    assume m: "main charger = (hf, tot, tries)"
    from main_result(2,3) [OF m]
    show "map (\<lambda>r. id_produit (hf ! r)) tot =
          ids_attendus 0 (pages_chargees charger [1..<MAX_PAGES + 1]) \<and>
        set tries \<subseteq> set tot"
      by (rule conjI)
  qed
  show ?thesis
    by (rule conjI [OF A B])
qed

theorem identifier_scheme_witness:
  "extraire_donnees_page [] [tag_direct, tag_debordement, tag_format] 0 =
     (take 3 store_final, [0, 2]) \<and>
   store_step\<^sup>*\<^sup>* (take 3 store_final) store_final \<and>
   ids_page 0 [tag_direct, tag_debordement, tag_format] = [ascii ''R1'', ascii ''R3''] \<and>
   map (\<lambda>r. id_produit (store_final ! r)) [0, 2] = [ascii ''R1'', ascii ''R3''] \<and>
   main charger_exemple = (store_final, [0, 2, 3], [0, 2]) \<and>
   ids_attendus 0 (pages_chargees charger_exemple [1..<MAX_PAGES + 1]) =
     [ascii ''R1'', ascii ''R3'', ascii ''R3''] \<and>
   map (\<lambda>r. id_produit (store_final ! r)) [0, 2, 3] =
     [ascii ''R1'', ascii ''R3'', ascii ''R3'']"
proof -
  note inst = identifier_scheme [of "[]" "[tag_direct, tag_debordement, tag_format]" 0
      "take 3 store_final" "[0, 2]" store_final charger_exemple store_final "[0, 2, 3]" "[0, 2]"]
  have a: "map (\<lambda>r. id_produit (store_final ! r)) [0, 2] = [ascii ''R1'', ascii ''R3'']"
    using inst page_exemple store_final_steps(2) unfolding ids_exemple by blast
  have b: "map (\<lambda>r. id_produit (store_final ! r)) [0, 2, 3] =
      [ascii ''R1'', ascii ''R3'', ascii ''R3'']"
    using inst main_exemple unfolding ids_exemple by blast
  note page_exemple store_final_steps(2) ids_exemple(1) a main_exemple ids_exemple(2) b
  then show ?thesis
    by (intro conjI)
qed

end
